theory Spec2Isabelle
  imports Main
begin

section \<open>Data model\<close>

text \<open>
  The combination worker of \<^verbatim>\<open>lobby.tsx\<close> (lines 264 to 525). JavaScript strings are
  modelled as \<^typ>\<open>string\<close>; a character outside ASCII stands as its UTF-8 bytes, so that
  concatenation and equality of the model agree with those of the program on well-formed
  text. The interface \<^verbatim>\<open>Person\<close> has the fields \<^verbatim>\<open>id\<close>, \<^verbatim>\<open>name\<close> and \<^verbatim>\<open>image\<close>.
\<close>

record Person =
  person_id :: string
  person_name :: string
  person_image :: string

text \<open>A row written to the table \<^verbatim>\<open>generated\<close>: \<^verbatim>\<open>{ name: canonName, image: outputUrl }\<close>.\<close>

record Combination =
  comb_name :: string
  comb_image :: string

text \<open>The error object of a store call (\<^verbatim>\<open>peopleErr\<close>, \<^verbatim>\<open>genErr\<close>, \<^verbatim>\<open>insertErr\<close>).\<close>

record PostgrestError =
  pg_code :: string
  pg_message :: string

text \<open>Exceptions a request can throw inside a \<^verbatim>\<open>try\<close> block.\<close>

datatype js_error = NetworkError | BodyError | TypeError

text \<open>
  What \<^verbatim>\<open>fetch\<close> resolves to: the flag \<^verbatim>\<open>res.ok\<close>, the status, and what \<^verbatim>\<open>res.text()\<close> and
  \<^verbatim>\<open>res.json()\<close> give, each of which may throw. A parsed body on which a property read
  throws (the JSON value \<^verbatim>\<open>null\<close>) is the \<open>Inl\<close> of \<open>res_json\<close>.
\<close>

record 'j Response =
  res_ok :: bool
  res_status :: nat
  res_text :: "js_error + string"
  res_json :: "js_error + 'j"

text \<open>\<^verbatim>\<open>WaveSpeedSubmitResponse\<close>; the identifier may be absent at run time.\<close>

record SubmitData =
  submit_id :: "string option"
  submit_status :: string

record WaveSpeedSubmitResponse =
  submit_code :: int
  submit_data :: "SubmitData option"

text \<open>\<^verbatim>\<open>WaveSpeedResultResponse\<close>.\<close>

record ResultData =
  result_status :: string
  result_outputs :: "string list option"
  result_error :: "string option"

record WaveSpeedResultResponse =
  result_code :: int
  result_data :: "ResultData option"

text \<open>
  JavaScript truthiness of a value that is a string or \<^verbatim>\<open>undefined\<close>/\<^verbatim>\<open>null\<close>: the empty
  string and the missing value are falsy.
\<close>

definition truthy :: "string option \<Rightarrow> bool" where
  "truthy s = (case s of None \<Rightarrow> False | Some v \<Rightarrow> v \<noteq> [])"

section \<open>Generation client\<close>

subsection \<open>submitJob\<close>

text \<open>
  The body of the \<^verbatim>\<open>try\<close> block of \<^verbatim>\<open>submitJob\<close> (lines 311 to 335). Its argument is the
  outcome of the \<^verbatim>\<open>fetch\<close>; \<open>Inl\<close> is a thrown exception.
\<close>

definition submitJob_try ::
  "js_error + WaveSpeedSubmitResponse Response \<Rightarrow> js_error + string option" where
  "submitJob_try fetched =
     (case fetched of
        Inl e \<Rightarrow> Inl e
      | Inr res \<Rightarrow>
          if \<not> res_ok res then
            (case res_text res of Inl e \<Rightarrow> Inl e | Inr body \<Rightarrow> Inr None)
          else
            (case res_json res of
               Inl e \<Rightarrow> Inl e
             | Inr json \<Rightarrow>
                 if submit_code json \<noteq> 200 \<or> \<not> truthy (Option.bind (submit_data json) submit_id)
                 then Inr None
                 else Inr (Option.bind (submit_data json) submit_id)))"

text \<open>\<^verbatim>\<open>submitJob\<close>: the \<^verbatim>\<open>catch\<close> clause (lines 336 to 339) turns every exception into \<^verbatim>\<open>null\<close>.\<close>

definition submitJob ::
  "js_error + WaveSpeedSubmitResponse Response \<Rightarrow> js_error + string option" where
  "submitJob fetched =
     (case submitJob_try fetched of Inl err \<Rightarrow> Inr None | Inr r \<Rightarrow> Inr r)"

subsection \<open>pollResult\<close>

datatype poll_step = Return "string option" | Continue

text \<open>\<^verbatim>\<open>json.data?.outputs?.[0] ?? null\<close>\<close>

definition first_output :: "WaveSpeedResultResponse \<Rightarrow> string option" where
  "first_output json =
     (case Option.bind (result_data json) result_outputs of
        None \<Rightarrow> None
      | Some [] \<Rightarrow> None
      | Some (u # rest) \<Rightarrow> Some u)"

text \<open>The \<^verbatim>\<open>try\<close> block of one iteration (lines 356 to 379).\<close>

definition poll_try ::
  "js_error + WaveSpeedResultResponse Response \<Rightarrow> js_error + poll_step" where
  "poll_try fetched =
     (case fetched of
        Inl e \<Rightarrow> Inl e
      | Inr res \<Rightarrow>
          if \<not> res_ok res then Inr Continue
          else
            (case res_json res of
               Inl e \<Rightarrow> Inl e
             | Inr json \<Rightarrow>
                 let status = map_option result_status (result_data json) in
                 if status = Some ''completed'' then Inr (Return (first_output json))
                 else if status = Some ''failed'' then Inr (Return None)
                 else Inr Continue))"

text \<open>One iteration with its \<^verbatim>\<open>catch\<close> clause: an exception is logged and the loop goes on.\<close>

definition poll_attempt :: "js_error + WaveSpeedResultResponse Response \<Rightarrow> poll_step" where
  "poll_attempt fetched = (case poll_try fetched of Inl err \<Rightarrow> Continue | Inr s \<Rightarrow> s)"

text \<open>
  The \<^verbatim>\<open>for\<close> loop of \<^verbatim>\<open>pollResult\<close> (lines 352 to 386). \<open>fetches attempt\<close> is the outcome of
  the status request of iteration \<open>attempt\<close>. The result pairs the returned value with the
  number of status requests made. The attempt budget is a count, a natural number (the
  handler passes none and the default is 30); the pause of \<^verbatim>\<open>intervalMs\<close> before each request
  takes time and changes no value, and is left out.
\<close>

function pollLoop ::
  "(nat \<Rightarrow> js_error + WaveSpeedResultResponse Response) \<Rightarrow> nat \<Rightarrow> nat \<Rightarrow> string option \<times> nat" where
  "pollLoop fetches maxAttempts attempt =
     (if attempt < maxAttempts then
        (case poll_attempt (fetches attempt) of
           Return r \<Rightarrow> (r, Suc attempt)
         | Continue \<Rightarrow> pollLoop fetches maxAttempts (Suc attempt))
      else (None, attempt))"
  by pat_completeness auto
termination
  by (relation "measure (\<lambda>(fetches, maxAttempts, attempt). maxAttempts - attempt)") auto

declare pollLoop.simps [simp del]

definition pollResult ::
  "(nat \<Rightarrow> js_error + WaveSpeedResultResponse Response) \<Rightarrow> nat \<Rightarrow> string option \<times> nat" where
  "pollResult fetches maxAttempts = pollLoop fetches maxAttempts 0"

section \<open>Pair resolver\<close>

text \<open>
  \<^verbatim>\<open>canonicalName\<close> (lines 394 to 398). \<^verbatim>\<open>String.prototype.localeCompare\<close> belongs to the
  JavaScript runtime, not to the repository: it is the parameter \<open>localeCompare\<close>.
\<close>

definition canonicalName :: "(string \<Rightarrow> string \<Rightarrow> int) \<Rightarrow> string \<Rightarrow> string \<Rightarrow> string" where
  "canonicalName localeCompare nameA nameB =
     (if localeCompare nameA nameB \<le> 0
      then nameA @ '' x '' @ nameB
      else nameB @ '' x '' @ nameA)"

text \<open>The two nested loops of step 3 (lines 446 to 454), pushing onto \<open>acc\<close>.\<close>

function innerLoop ::
  "(string \<Rightarrow> string \<Rightarrow> int) \<Rightarrow> Person list \<Rightarrow> string set \<Rightarrow> nat \<Rightarrow> nat
     \<Rightarrow> (Person \<times> Person) list \<Rightarrow> (Person \<times> Person) list" where
  "innerLoop lc people existingNames i j acc =
     (if j < length people then
        innerLoop lc people existingNames i (Suc j)
          (if canonicalName lc (person_name (people ! i)) (person_name (people ! j)) \<notin> existingNames
           then acc @ [(people ! i, people ! j)]
           else acc)
      else acc)"
  by pat_completeness auto
termination
  by (relation "measure (\<lambda>(lc, people, existingNames, i, j, acc). length people - j)") auto

declare innerLoop.simps [simp del]

function outerLoop ::
  "(string \<Rightarrow> string \<Rightarrow> int) \<Rightarrow> Person list \<Rightarrow> string set \<Rightarrow> nat
     \<Rightarrow> (Person \<times> Person) list \<Rightarrow> (Person \<times> Person) list" where
  "outerLoop lc people existingNames i acc =
     (if i < length people then
        outerLoop lc people existingNames (Suc i) (innerLoop lc people existingNames i (Suc i) acc)
      else acc)"
  by pat_completeness auto
termination
  by (relation "measure (\<lambda>(lc, people, existingNames, i, acc). length people - i)") auto

declare outerLoop.simps [simp del]

definition missingPairs ::
  "(string \<Rightarrow> string \<Rightarrow> int) \<Rightarrow> Person list \<Rightarrow> string set \<Rightarrow> (Person \<times> Person) list" where
  "missingPairs lc people existingNames = outerLoop lc people existingNames 0 []"

section \<open>Route handler\<close>

text \<open>A JSON body is a list of keys with their values; the response pairs it with a status.\<close>

datatype jvalue = JString string | JNumber nat

record NextResponse =
  body :: "(string \<times> jvalue) list"
  http_status :: nat

text \<open>The outcome of one promise given to \<^verbatim>\<open>Promise.allSettled\<close>.\<close>

datatype settled = Fulfilled string | Rejected string

text \<open>
  Everything the handler reads from outside: the environment variables, the two table
  reads (\<^verbatim>\<open>data\<close> and \<^verbatim>\<open>error\<close> of each, as the store client answers), and, for the \<open>k\<close>-th
  missing pair, the outcome of its submit request, of each of its status requests, and of
  its insert. Of the table \<^verbatim>\<open>generated\<close> the handler selects the column \<^verbatim>\<open>name\<close> only.
  \<^verbatim>\<open>createClient\<close> belongs to the store library: the field gives the exception it throws on
  a URL and a key, if any (the library throws on a URL it cannot use).
\<close>

record Env =
  WAVESPEED_API_KEY :: "string option"
  NEXT_PUBLIC_SUPABASE_URL :: "string option"
  SUPABASE_SERVICE_ROLE_KEY :: "string option"
  createClient :: "string \<Rightarrow> string \<Rightarrow> js_error option"
  people_data :: "Person list option"
  people_error :: "PostgrestError option"
  generated_data :: "string list option"
  generated_error :: "PostgrestError option"
  submit_fetch :: "nat \<Rightarrow> js_error + WaveSpeedSubmitResponse Response"
  poll_fetch :: "nat \<Rightarrow> nat \<Rightarrow> js_error + WaveSpeedResultResponse Response"
  insert_error :: "nat \<Rightarrow> PostgrestError option"

text \<open>
  What one invocation does: its response (\<open>Inl\<close> when the handler itself throws), the
  image pairs it submitted to the generation API, and the rows it tried to insert.
\<close>

record Run =
  response :: "js_error + NextResponse"
  submit_calls :: "(string \<times> string) list"
  insert_calls :: "Combination list"

text \<open>Conversion of a count inside a template literal.\<close>

function numberToString :: "nat \<Rightarrow> string" where
  "numberToString n =
     (if n < 10 then [char_of (48 + n)]
      else numberToString (n div 10) @ [char_of (48 + n mod 10)])"
  by pat_completeness auto
termination
  by (relation "measure (\<lambda>n. n)") auto

declare numberToString.simps [simp del]

text \<open>\<^verbatim>\<open>Promise.all\<close>: the first rejection rejects the whole, otherwise the list of values.\<close>

fun promiseAll :: "(js_error + 'a) list \<Rightarrow> js_error + 'a list" where
  "promiseAll [] = Inr []"
| "promiseAll (Inl e # ps) = Inl e"
| "promiseAll (Inr v # ps) = (case promiseAll ps of Inl e \<Rightarrow> Inl e | Inr vs \<Rightarrow> Inr (v # vs))"

text \<open>
  The callback of step 5 (lines 487 to 504) for one submitted job: the label, the outcomes
  of its status requests and of its insert. \<^verbatim>\<open>pollResult\<close> is called with its defaults, 30
  attempts.
\<close>

definition settleJob ::
  "string \<Rightarrow> (nat \<Rightarrow> js_error + WaveSpeedResultResponse Response) \<Rightarrow> PostgrestError option
     \<Rightarrow> settled" where
  "settleJob canonName fetches insertErr =
     (let outputUrl = fst (pollResult fetches 30) in
      if \<not> truthy outputUrl then Rejected (''No output for '' @ canonName)
      else
        (case insertErr of
           Some e \<Rightarrow> if pg_code e \<noteq> ''23505'' then Rejected (pg_message e) else Fulfilled canonName
         | None \<Rightarrow> Fulfilled canonName))"

text \<open>The insert the callback issues: none when polling gave no output.\<close>

definition insertOf ::
  "string \<Rightarrow> (nat \<Rightarrow> js_error + WaveSpeedResultResponse Response) \<Rightarrow> Combination list" where
  "insertOf canonName fetches =
     (case fst (pollResult fetches 30) of
        None \<Rightarrow> []
      | Some url \<Rightarrow> if url = [] then [] else [\<lparr>comb_name = canonName, comb_image = url\<rparr>])"

definition isFulfilled :: "settled \<Rightarrow> bool" where
  "isFulfilled r = (case r of Fulfilled v \<Rightarrow> True | Rejected m \<Rightarrow> False)"

definition isRejected :: "settled \<Rightarrow> bool" where
  "isRejected r = (case r of Fulfilled v \<Rightarrow> False | Rejected m \<Rightarrow> True)"

definition jsonResponse :: "(string \<times> jvalue) list \<Rightarrow> nat \<Rightarrow> Run" where
  "jsonResponse b st =
     \<lparr>response = Inr \<lparr>body = b, http_status = st\<rparr>, submit_calls = [], insert_calls = []\<rparr>"

text \<open>
  Step 4 (lines 466 to 483): every missing pair is submitted, \<open>submitAll\<close>; an entry of
  \<open>submitted\<close> keeps the index of the pair, the pair, the prediction id and the label, for
  the pairs that gave an id. The program pushes them in the order the requests complete;
  the model lists them in the order of the missing pairs.
\<close>

type_synonym Job = "nat \<times> (Person \<times> Person) \<times> string \<times> string"

definition submitAll ::
  "Env \<Rightarrow> (Person \<times> Person) list \<Rightarrow> js_error + string option list" where
  "submitAll env missing =
     promiseAll (map (\<lambda>k. submitJob (submit_fetch env k)) [0..<length missing])"

definition submittedJobs ::
  "(string \<Rightarrow> string \<Rightarrow> int) \<Rightarrow> (Person \<times> Person) list \<Rightarrow> string option list \<Rightarrow> Job list" where
  "submittedJobs lc missing ids =
     concat (map (\<lambda>(k, pair, predictionId).
        (case predictionId of
           None \<Rightarrow> []
         | Some pid \<Rightarrow>
             if pid = [] then []
             else [(k, pair, pid, canonicalName lc (person_name (fst pair)) (person_name (snd pair)))]))
       (zip [0..<length missing] (zip missing ids)))"

text \<open>Step 5 (lines 486 to 505): the settled outcome of every submitted job, and the inserts issued.\<close>

definition jobResults :: "Env \<Rightarrow> Job list \<Rightarrow> settled list" where
  "jobResults env submitted =
     map (\<lambda>(k, pair, predictionId, canonName).
            settleJob canonName (poll_fetch env k) (insert_error env k)) submitted"

definition jobInserts :: "Env \<Rightarrow> Job list \<Rightarrow> Combination list" where
  "jobInserts env submitted =
     concat (map (\<lambda>(k, pair, predictionId, canonName).
                    insertOf canonName (poll_fetch env k)) submitted)"

text \<open>The summary (lines 507 to 519).\<close>

definition summary :: "nat \<Rightarrow> nat \<Rightarrow> settled list \<Rightarrow> NextResponse" where
  "summary totalMissing submitted results =
     (let succeeded = length (filter isFulfilled results);
          failed = length (filter isRejected results)
      in \<lparr>body =
            [(''message'', JString (''Done. Succeeded: '' @ numberToString succeeded
                @ '', failed: '' @ numberToString failed)),
             (''total'', JNumber totalMissing),
             (''submitted'', JNumber submitted),
             (''succeeded'', JNumber succeeded),
             (''failed'', JNumber failed)],
          http_status = 200\<rparr>)"

text \<open>Steps 4 and 5 and the summary (lines 463 to 519), once the missing pairs are known.\<close>

definition generate :: "(string \<Rightarrow> string \<Rightarrow> int) \<Rightarrow> Env \<Rightarrow> (Person \<times> Person) list \<Rightarrow> Run" where
  "generate lc env missing =
     (let calls = map (\<lambda>pair. (person_image (fst pair), person_image (snd pair))) missing in
      case submitAll env missing of
        Inl e \<Rightarrow> \<lparr>response = Inl e, submit_calls = calls, insert_calls = []\<rparr>
      | Inr ids \<Rightarrow>
          let submitted = submittedJobs lc missing ids;
              results = jobResults env submitted
          in \<lparr>response = Inr (summary (length missing) (length submitted) results),
               submit_calls = calls,
               insert_calls = jobInserts env submitted\<rparr>)"

text \<open>The string of an environment variable that passed its guard.\<close>

definition envValue :: "string option \<Rightarrow> string" where
  "envValue s = (case s of None \<Rightarrow> [] | Some v \<Rightarrow> v)"

text \<open>
  The handler \<^verbatim>\<open>POST\<close> (lines 402 to 520); \<^verbatim>\<open>GET\<close> calls it. The call of \<^verbatim>\<open>createClient\<close> at
  line 418 stands outside any \<^verbatim>\<open>try\<close>: when it throws, the handler throws.
\<close>

definition POST :: "(string \<Rightarrow> string \<Rightarrow> int) \<Rightarrow> Env \<Rightarrow> Run" where
  "POST lc env =
     (if \<not> truthy (WAVESPEED_API_KEY env) then
        jsonResponse [(''error'', JString ''WAVESPEED_API_KEY not set'')] 500
      else if \<not> truthy (NEXT_PUBLIC_SUPABASE_URL env) \<or> \<not> truthy (SUPABASE_SERVICE_ROLE_KEY env) then
        jsonResponse [(''error'', JString ''Supabase env vars not set'')] 500
      else
        (case createClient env (envValue (NEXT_PUBLIC_SUPABASE_URL env))
                (envValue (SUPABASE_SERVICE_ROLE_KEY env)) of
           Some thrown \<Rightarrow> \<lparr>response = Inl thrown, submit_calls = [], insert_calls = []\<rparr>
         | None \<Rightarrow>
             (case people_error env of
                Some peopleErr \<Rightarrow> jsonResponse [(''error'', JString (pg_message peopleErr))] 500
              | None \<Rightarrow>
                  (case people_data env of
                     None \<Rightarrow> jsonResponse [(''message'', JString ''Not enough people yet'')] 200
                   | Some people \<Rightarrow>
                       if length people < 2 then
                         jsonResponse [(''message'', JString ''Not enough people yet'')] 200
                       else
                         (case generated_error env of
                            Some genErr \<Rightarrow> jsonResponse [(''error'', JString (pg_message genErr))] 500
                          | None \<Rightarrow>
                              let existingNames =
                                    set (case generated_data env of None \<Rightarrow> [] | Some g \<Rightarrow> g);
                                  missing = missingPairs lc people existingNames
                              in if length missing = 0 then
                                   jsonResponse
                                     [(''message'', JString ''All combinations already generated'')] 200
                                 else generate lc env missing)))))"

definition GET :: "(string \<Rightarrow> string \<Rightarrow> int) \<Rightarrow> Env \<Rightarrow> Run" where
  "GET lc env = POST lc env"

section \<open>Notions used in the statements\<close>

text \<open>The index pairs \<open>(i, j)\<close> with \<open>i < j < n\<close>, in ascending order.\<close>

definition indexPairs :: "nat \<Rightarrow> (nat \<times> nat) list" where
  "indexPairs n = concat (map (\<lambda>i. map (Pair i) [Suc i..<n]) [0..<n])"

definition lexLess :: "nat \<times> nat \<Rightarrow> nat \<times> nat \<Rightarrow> bool" where
  "lexLess p q = (fst p < fst q \<or> (fst p = fst q \<and> snd p < snd q))"

text \<open>The label of the people at an index pair, and whether it is in the done-name set.\<close>

definition labelAt :: "(string \<Rightarrow> string \<Rightarrow> int) \<Rightarrow> Person list \<Rightarrow> nat \<times> nat \<Rightarrow> string" where
  "labelAt lc people ij =
     canonicalName lc (person_name (people ! fst ij)) (person_name (people ! snd ij))"

definition labelDone ::
  "(string \<Rightarrow> string \<Rightarrow> int) \<Rightarrow> Person list \<Rightarrow> string set \<Rightarrow> nat \<times> nat \<Rightarrow> bool" where
  "labelDone lc people existingNames ij = (labelAt lc people ij \<in> existingNames)"

definition pairAt :: "Person list \<Rightarrow> nat \<times> nat \<Rightarrow> Person \<times> Person" where
  "pairAt people ij = (people ! fst ij, people ! snd ij)"

text \<open>
  A status request that succeeds and shows the status \<open>st\<close> with the outputs \<open>outs\<close>; and
  a transient request error: the request throws, the HTTP status is not a success, or the
  body does not parse.
\<close>

definition observes ::
  "js_error + WaveSpeedResultResponse Response \<Rightarrow> string \<Rightarrow> string list option \<Rightarrow> bool" where
  "observes fetched st outs =
     (case fetched of
        Inl e \<Rightarrow> False
      | Inr res \<Rightarrow>
          res_ok res \<and>
          (case res_json res of
             Inl e \<Rightarrow> False
           | Inr json \<Rightarrow>
               (case result_data json of
                  None \<Rightarrow> False
                | Some d \<Rightarrow> result_status d = st \<and> result_outputs d = outs)))"

definition transient :: "js_error + WaveSpeedResultResponse Response \<Rightarrow> bool" where
  "transient fetched =
     (case fetched of
        Inl e \<Rightarrow> True
      | Inr res \<Rightarrow> (if res_ok res then isl (res_json res) else True))"

definition statusIs :: "js_error + WaveSpeedResultResponse Response \<Rightarrow> string \<Rightarrow> bool" where
  "statusIs fetched st =
     (case fetched of
        Inl e \<Rightarrow> False
      | Inr res \<Rightarrow>
          res_ok res \<and>
          (case res_json res of
             Inl e \<Rightarrow> False
           | Inr json \<Rightarrow>
               (case result_data json of None \<Rightarrow> False | Some d \<Rightarrow> result_status d = st)))"

text \<open>The outcomes of a status request on which polling goes on, as the specification lists them.\<close>

definition retried :: "js_error + WaveSpeedResultResponse Response \<Rightarrow> bool" where
  "retried fetched =
     (transient fetched \<or> statusIs fetched ''queued'' \<or> statusIs fetched ''processing'')"

text \<open>
  The failures of a submission, as the specification lists them: the request throws, the
  HTTP status is not a success, the body does not parse, the field \<^verbatim>\<open>code\<close> is not 200, or
  the identifier is missing or empty. And the identifier a response carries.
\<close>

definition submitFailure :: "js_error + WaveSpeedSubmitResponse Response \<Rightarrow> bool" where
  "submitFailure fetched =
     (case fetched of
        Inl e \<Rightarrow> True
      | Inr res \<Rightarrow>
          (if res_ok res then
             (case res_json res of
                Inl e \<Rightarrow> True
              | Inr json \<Rightarrow>
                  (if submit_code json = 200 then
                     (case submit_data json of
                        None \<Rightarrow> True
                      | Some d \<Rightarrow> (case submit_id d of None \<Rightarrow> True | Some pid \<Rightarrow> pid = []))
                   else True))
           else True))"

definition jobIdOf :: "js_error + WaveSpeedSubmitResponse Response \<Rightarrow> string option" where
  "jobIdOf fetched =
     (case fetched of
        Inl e \<Rightarrow> None
      | Inr res \<Rightarrow>
          (case res_json res of
             Inl e \<Rightarrow> None
           | Inr json \<Rightarrow> (case submit_data json of None \<Rightarrow> None | Some d \<Rightarrow> submit_id d)))"

text \<open>
  The configuration is present; the exception the handler throws, that of \<^verbatim>\<open>createClient\<close>
  on a configuration that is present; and the fatal invocations, which end before the
  missing pairs are resolved: missing configuration, an exception of \<^verbatim>\<open>createClient\<close>, or
  a failure of a table read the handler makes (the table \<^verbatim>\<open>generated\<close> is read only when
  there are two people or more).
\<close>

definition configured :: "Env \<Rightarrow> bool" where
  "configured env =
     (truthy (WAVESPEED_API_KEY env) \<and> truthy (NEXT_PUBLIC_SUPABASE_URL env)
        \<and> truthy (SUPABASE_SERVICE_ROLE_KEY env))"

definition enoughPeople :: "Env \<Rightarrow> bool" where
  "enoughPeople env = (case people_data env of None \<Rightarrow> False | Some people \<Rightarrow> 2 \<le> length people)"

definition clientThrown :: "Env \<Rightarrow> js_error option" where
  "clientThrown env =
     (if configured env then
        createClient env (envValue (NEXT_PUBLIC_SUPABASE_URL env))
          (envValue (SUPABASE_SERVICE_ROLE_KEY env))
      else None)"

definition fatal :: "Env \<Rightarrow> bool" where
  "fatal env =
     (if configured env then
        (if clientThrown env = None then
           (if people_error env = None then enoughPeople env \<and> generated_error env \<noteq> None
            else True)
         else True)
      else True)"

text \<open>The people and the done-name set an invocation works on, and its missing pairs.\<close>

definition peopleOf :: "Env \<Rightarrow> Person list" where
  "peopleOf env = (case people_data env of None \<Rightarrow> [] | Some people \<Rightarrow> people)"

definition existingNamesOf :: "Env \<Rightarrow> string set" where
  "existingNamesOf env = set (case generated_data env of None \<Rightarrow> [] | Some g \<Rightarrow> g)"

definition missingOf :: "(string \<Rightarrow> string \<Rightarrow> int) \<Rightarrow> Env \<Rightarrow> (Person \<times> Person) list" where
  "missingOf lc env = missingPairs lc (peopleOf env) (existingNamesOf env)"

definition keys :: "NextResponse \<Rightarrow> string list" where
  "keys r = map fst (body r)"

definition summaryKeys :: "string list" where
  "summaryKeys = [''message'', ''total'', ''submitted'', ''succeeded'', ''failed'']"

text \<open>The keys and the status of the response of an invocation.\<close>

definition responseKeys :: "Run \<Rightarrow> string list" where
  "responseKeys run = (case response run of Inl e \<Rightarrow> [] | Inr r \<Rightarrow> keys r)"

definition responseStatus :: "Run \<Rightarrow> nat option" where
  "responseStatus run = (case response run of Inl e \<Rightarrow> None | Inr r \<Rightarrow> Some (http_status r))"

text \<open>A numeric field of the response; and the jobs an invocation submitted for its missing pairs.\<close>

definition numberField :: "string \<Rightarrow> Run \<Rightarrow> nat option" where
  "numberField key run =
     (case response run of
        Inl e \<Rightarrow> None
      | Inr r \<Rightarrow> (case map_of (body r) key of Some (JNumber n) \<Rightarrow> Some n | _ \<Rightarrow> None))"

definition submittedOf ::
  "(string \<Rightarrow> string \<Rightarrow> int) \<Rightarrow> Env \<Rightarrow> (Person \<times> Person) list \<Rightarrow> Job list" where
  "submittedOf lc env missing =
     (case submitAll env missing of Inl e \<Rightarrow> [] | Inr ids \<Rightarrow> submittedJobs lc missing ids)"

text \<open>
  The label of a pair of people; and the labels of the jobs an invocation settles as
  fulfilled, each of which is in the table \<^verbatim>\<open>generated\<close> afterwards: this invocation inserted
  it, or the insert met a uniqueness conflict.
\<close>

definition labelOf :: "(string \<Rightarrow> string \<Rightarrow> int) \<Rightarrow> Person \<times> Person \<Rightarrow> string" where
  "labelOf lc pair = canonicalName lc (person_name (fst pair)) (person_name (snd pair))"

definition fulfilledName :: "settled \<Rightarrow> string list" where
  "fulfilledName r = (case r of Fulfilled n \<Rightarrow> [n] | Rejected m \<Rightarrow> [])"

definition fulfilledNames :: "(string \<Rightarrow> string \<Rightarrow> int) \<Rightarrow> Env \<Rightarrow> string list" where
  "fulfilledNames lc env =
     concat (map fulfilledName (jobResults env (submittedOf lc env (missingOf lc env))))"

section \<open>Example inputs\<close>

text \<open>
  A comparison by character codes, standing for \<^verbatim>\<open>localeCompare\<close> on the ASCII names of
  the examples.
\<close>

fun codeCompare :: "string \<Rightarrow> string \<Rightarrow> int" where
  "codeCompare [] [] = 0"
| "codeCompare [] (y # ys) = - 1"
| "codeCompare (x # xs) [] = 1"
| "codeCompare (x # xs) (y # ys) =
     (if (of_char x :: nat) < of_char y then - 1
      else if (of_char y :: nat) < of_char x then 1
      else codeCompare xs ys)"

text \<open>
  The letter e with acute accent, precomposed (U+00E9) and decomposed (U+0065 U+0301), in
  UTF-8; and a comparison that takes the two for equal, as a collation does with
  canonically equivalent strings.
\<close>

definition e_composed :: string where
  "e_composed = [CHR 0xC3, CHR 0xA9]"

definition e_decomposed :: string where
  "e_decomposed = [CHR ''e'', CHR 0xCC, CHR 0x81]"

definition normalise :: "string \<Rightarrow> string" where
  "normalise a = (if a = e_decomposed then e_composed else a)"

definition collate :: "string \<Rightarrow> string \<Rightarrow> int" where
  "collate a b = codeCompare (normalise a) (normalise b)"

definition alice :: Person where
  "alice = \<lparr>person_id = ''1'', person_name = ''Alice'', person_image = ''https://img/alice''\<rparr>"

definition bob :: Person where
  "bob = \<lparr>person_id = ''2'', person_name = ''Bob'', person_image = ''https://img/bob''\<rparr>"

definition carol :: Person where
  "carol = \<lparr>person_id = ''3'', person_name = ''Carol'', person_image = ''https://img/carol''\<rparr>"

text \<open>A second person named Alice.\<close>

definition alice2 :: Person where
  "alice2 = \<lparr>person_id = ''4'', person_name = ''Alice'', person_image = ''https://img/alice2''\<rparr>"

definition submitOk :: "string \<Rightarrow> js_error + WaveSpeedSubmitResponse Response" where
  "submitOk pid =
     Inr \<lparr>res_ok = True, res_status = 200, res_text = Inr [],
          res_json = Inr \<lparr>submit_code = 200,
            submit_data = Some \<lparr>submit_id = Some pid, submit_status = ''created''\<rparr>\<rparr>\<rparr>"

definition pollWith :: "string \<Rightarrow> string list option \<Rightarrow> js_error + WaveSpeedResultResponse Response" where
  "pollWith st outs =
     Inr \<lparr>res_ok = True, res_status = 200, res_text = Inr [],
          res_json = Inr \<lparr>result_code = 200,
            result_data = Some \<lparr>result_status = st, result_outputs = outs, result_error = None\<rparr>\<rparr>\<rparr>"

text \<open>
  A job seen processing once and then completed with one output; a job that stays in
  processing; a store that accepts every insert, and one that answers every insert with
  a uniqueness conflict.
\<close>

definition examplePolls :: "nat \<Rightarrow> js_error + WaveSpeedResultResponse Response" where
  "examplePolls attempt =
     (if attempt = 0 then pollWith ''processing'' None
      else pollWith ''completed'' (Some [''https://out'']))"

definition stuckPolls :: "nat \<Rightarrow> js_error + WaveSpeedResultResponse Response" where
  "stuckPolls attempt = pollWith ''processing'' None"

definition insertAccepted :: "nat \<Rightarrow> PostgrestError option" where
  "insertAccepted k = None"

definition insertConflict :: "nat \<Rightarrow> PostgrestError option" where
  "insertConflict k = Some \<lparr>pg_code = ''23505'', pg_message = ''duplicate key value''\<rparr>"

text \<open>Every submission accepted; and the first submission failing at the network.\<close>

definition submitsOk :: "nat \<Rightarrow> js_error + WaveSpeedSubmitResponse Response" where
  "submitsOk k = submitOk ''job''"

definition submitsFlaky :: "nat \<Rightarrow> js_error + WaveSpeedSubmitResponse Response" where
  "submitsFlaky k = (if k = 0 then Inl NetworkError else submitOk ''job'')"

text \<open>
  An invocation with its configuration present and both reads succeeding, in which the
  submissions answer \<open>submits\<close>, the status requests of every job answer \<open>polls\<close>, and the
  inserts answer \<open>ins\<close>.
\<close>

text \<open>
  A stand-in for \<^verbatim>\<open>createClient\<close> of the store library: it throws on a URL that does not
  begin with \<^verbatim>\<open>http\<close>.
\<close>

definition clientFor :: "string \<Rightarrow> string \<Rightarrow> js_error option" where
  "clientFor url key = (if take 4 url = ''http'' then None else Some TypeError)"

text \<open>An insert that fails for another reason than a conflict.\<close>

definition insertBroken :: "nat \<Rightarrow> PostgrestError option" where
  "insertBroken k = Some \<lparr>pg_code = ''08006'', pg_message = ''connection failure''\<rparr>"

definition exampleEnv ::
  "Person list \<Rightarrow> string list \<Rightarrow> (nat \<Rightarrow> js_error + WaveSpeedSubmitResponse Response)
     \<Rightarrow> (nat \<Rightarrow> js_error + WaveSpeedResultResponse Response)
     \<Rightarrow> (nat \<Rightarrow> PostgrestError option) \<Rightarrow> Env" where
  "exampleEnv people generated submits polls ins =
     \<lparr>WAVESPEED_API_KEY = Some ''key'',
      NEXT_PUBLIC_SUPABASE_URL = Some ''https://db'',
      SUPABASE_SERVICE_ROLE_KEY = Some ''role'',
      createClient = clientFor,
      people_data = Some people,
      people_error = None,
      generated_data = Some generated,
      generated_error = None,
      submit_fetch = submits,
      poll_fetch = (\<lambda>k. polls),
      insert_error = ins\<rparr>"

section \<open>Pair resolver: proofs\<close>

lemma canonicalName_comm_strict:
  assumes total: "lc a b \<le> 0 \<or> lc b a \<le> 0"
    and antisym: "lc a b \<le> 0 \<and> lc b a \<le> 0 \<longrightarrow> a = b"
  shows "canonicalName lc a b = canonicalName lc b a"
  using assms by (auto simp: canonicalName_def)

lemma canonicalName_left_first:
  "canonicalName lc a b = (if lc a b \<le> 0 then a @ '' x '' @ b else b @ '' x '' @ a)"
  by (simp add: canonicalName_def)

text \<open>
  Claim C1: \<^verbatim>\<open>canonicalName(a, b)\<close> equals \<^verbatim>\<open>canonicalName(b, a)\<close> for every pair of names, the
  name that sorts first standing on the left. The lemmas above give the second half, and
  the first half for a comparison that ties only identical names. The first half fails
  where the comparison ties two different names, as \<^verbatim>\<open>localeCompare\<close> does for the
  precomposed and the decomposed spelling of one accented letter: each call then keeps
  its own first argument on the left, and the two labels differ.
\<close>

theorem canonicalName_tie_order_dependent:
  assumes "lc e_composed e_decomposed = 0" and "lc e_decomposed e_composed = 0"
  shows "canonicalName lc e_composed e_decomposed = e_composed @ '' x '' @ e_decomposed
       \<and> canonicalName lc e_decomposed e_composed = e_decomposed @ '' x '' @ e_composed
       \<and> canonicalName lc e_composed e_decomposed \<noteq> canonicalName lc e_decomposed e_composed"
  using assms by (simp add: canonicalName_def e_composed_def e_decomposed_def)

theorem canonicalName_tie_order_dependent_witness:
  "collate e_composed e_decomposed = 0 \<and> collate e_decomposed e_composed = 0
     \<and> canonicalName collate e_composed e_decomposed \<noteq> canonicalName collate e_decomposed e_composed"
proof -
  have h1: "collate e_composed e_decomposed = 0"
    by (simp add: collate_def normalise_def e_composed_def e_decomposed_def)
  have h2: "collate e_decomposed e_composed = 0"
    by (simp add: collate_def normalise_def e_composed_def e_decomposed_def)
  from canonicalName_tie_order_dependent [OF h1 h2] h1 h2 show ?thesis by blast
qed

lemma innerLoop_eq:
  "innerLoop lc people ex i j acc =
     acc @ map (\<lambda>j. pairAt people (i, j))
             (filter (\<lambda>j. \<not> labelDone lc people ex (i, j)) [j..<length people])"
proof (induction lc people ex i j acc rule: innerLoop.induct)
  case (1 lc people ex i j acc)
  show ?case
  proof (cases "j < length people")
    case True
    then have up: "[j..<length people] = j # [Suc j..<length people]"
      by (simp add: upt_conv_Cons)
    show ?thesis
      using True 1 [OF True]
      by (subst innerLoop.simps) (simp add: up labelDone_def labelAt_def pairAt_def)
  next
    case False
    then show ?thesis by (subst innerLoop.simps) simp
  qed
qed

lemma outerLoop_eq:
  "outerLoop lc people ex i acc =
     acc @ concat (map (\<lambda>i. map (\<lambda>j. pairAt people (i, j))
             (filter (\<lambda>j. \<not> labelDone lc people ex (i, j)) [Suc i..<length people])) [i..<length people])"
proof (induction lc people ex i acc rule: outerLoop.induct)
  case (1 lc people ex i acc)
  show ?case
  proof (cases "i < length people")
    case True
    then have up: "[i..<length people] = i # [Suc i..<length people]"
      by (simp add: upt_conv_Cons)
    show ?thesis
      using True 1 [OF True] by (subst outerLoop.simps) (simp add: up innerLoop_eq)
  next
    case False
    then show ?thesis by (subst outerLoop.simps) simp
  qed
qed

lemma missingPairs_eq:
  "missingPairs lc people ex =
     map (pairAt people) (filter (\<lambda>ij. \<not> labelDone lc people ex ij) (indexPairs (length people)))"
  by (simp add: missingPairs_def outerLoop_eq indexPairs_def map_concat filter_concat
      comp_def filter_map)

lemma set_indexPairs: "set (indexPairs n) = {(i, j). i < j \<and> j < n}"
proof -
  have "(a, b) \<in> set (indexPairs n) \<longleftrightarrow> a < b \<and> b < n" for a b
    by (auto simp: indexPairs_def intro!: bexI [where x = a])
  then show ?thesis by auto
qed

lemma sorted_indexPairs_from:
  "sorted_wrt lexLess (concat (map (\<lambda>i. map (Pair i) [Suc i..<n]) [m..<n]))"
proof (induction "n - m" arbitrary: m)
  case 0
  then show ?case by simp
next
  case (Suc d)
  then have lt: "m < n" and d: "d = n - Suc m" by simp_all
  have up: "[m..<n] = m # [Suc m..<n]"
    using lt by (simp add: upt_conv_Cons)
  have row: "sorted_wrt lexLess (map (Pair m) [Suc m..<n])"
    by (simp add: sorted_wrt_map lexLess_def sorted_wrt_upt)
  show ?case
    using Suc.hyps(1) [OF d] row
    by (auto simp: up sorted_wrt_append lexLess_def)
qed

lemma sorted_indexPairs: "sorted_wrt lexLess (indexPairs n)"
  using sorted_indexPairs_from [of n 0] by (simp add: indexPairs_def)

lemma sorted_wrt_lexLess_distinct: "sorted_wrt lexLess ps \<Longrightarrow> distinct ps"
  by (induction ps) (auto simp: lexLess_def)

lemma distinct_indexPairs: "distinct (indexPairs n)"
  by (rule sorted_wrt_lexLess_distinct) (rule sorted_indexPairs)

lemma length_indexPairs: "length (indexPairs n) = n * (n - 1) div 2"
proof -
  have "length (indexPairs n) = (\<Sum>i<n. n - Suc i)"
    by (simp add: indexPairs_def length_concat comp_def interv_sum_list_conv_sum_set_nat
        atLeast0LessThan)
  also have "\<dots> = (\<Sum>i<n. i)"
    by (rule sum.nat_diff_reindex)
  also have "\<dots> = n * (n - 1) div 2"
    using Sum_Ico_nat [of 0 n] by (simp add: atLeast0LessThan)
  finally show ?thesis .
qed

lemma length_missingPairs:
  "length (missingPairs lc people ex) =
     length people * (length people - 1) div 2
       - length (filter (labelDone lc people ex) (indexPairs (length people)))"
proof -
  have "length (filter (labelDone lc people ex) (indexPairs (length people)))
      + length (missingPairs lc people ex) = length (indexPairs (length people))"
    using sum_length_filter_compl [of "labelDone lc people ex" "indexPairs (length people)"]
    by (simp add: missingPairs_eq)
  then show ?thesis
    by (simp add: length_indexPairs)
qed

text \<open>
  Claim C2: for a list of \<open>n\<close> people and a done-name set, the missing-pairs computation
  goes through exactly the \<open>n * (n - 1) / 2\<close> index pairs \<open>(i, j)\<close> with \<open>i < j\<close>, each once
  and in ascending order, and returns the pairs of people at those whose label is not in
  the set, in that order; its length is \<open>n * (n - 1) / 2\<close> less the number of index pairs
  whose label is in the set.
\<close>

theorem missingPairs_enumerates:
  "set (indexPairs (length people)) = {(i, j). i < j \<and> j < length people}
   \<and> length (indexPairs (length people)) = length people * (length people - 1) div 2
   \<and> sorted_wrt lexLess (indexPairs (length people))
   \<and> distinct (indexPairs (length people))
   \<and> missingPairs lc people existingNames =
       map (pairAt people)
         (filter (\<lambda>ij. labelAt lc people ij \<notin> existingNames) (indexPairs (length people)))
   \<and> length (missingPairs lc people existingNames) =
       length people * (length people - 1) div 2
         - length (filter (\<lambda>ij. labelAt lc people ij \<in> existingNames) (indexPairs (length people)))"
  using set_indexPairs [of "length people"] length_indexPairs [of "length people"]
    sorted_indexPairs [of "length people"] distinct_indexPairs [of "length people"]
    missingPairs_eq [of lc people existingNames] length_missingPairs [of lc people existingNames]
  unfolding labelDone_def by simp

lemma indexPairs_3: "indexPairs 3 = [(0, 1), (0, 2), (1, 2)]"
  by (simp add: indexPairs_def upt_rec)

theorem missingPairs_enumerates_witness:
  "missingPairs codeCompare [alice, bob, carol] {''Alice x Carol''} = [(alice, bob), (bob, carol)]
   \<and> length (missingPairs codeCompare [alice, bob, carol] {''Alice x Carol''}) = 3 * (3 - 1) div 2 - 1"
proof -
  have names: "labelAt codeCompare [alice, bob, carol] (0, Suc 0) = ''Alice x Bob''"
    "labelAt codeCompare [alice, bob, carol] (0, 2) = ''Alice x Carol''"
    "labelAt codeCompare [alice, bob, carol] (Suc 0, 2) = ''Bob x Carol''"
    by (simp_all add: labelAt_def canonicalName_def alice_def bob_def carol_def)
  have "missingPairs codeCompare [alice, bob, carol] {''Alice x Carol''} =
       map (pairAt [alice, bob, carol])
         (filter (\<lambda>ij. labelAt codeCompare [alice, bob, carol] ij \<notin> {''Alice x Carol''})
            (indexPairs (length [alice, bob, carol])))"
    using missingPairs_enumerates [of "[alice, bob, carol]" codeCompare "{''Alice x Carol''}"]
    by blast
  also have "length [alice, bob, carol] = 3" by simp
  also have "indexPairs 3 = [(0, 1), (0, 2), (1, 2)]" by (rule indexPairs_3)
  finally have "missingPairs codeCompare [alice, bob, carol] {''Alice x Carol''}
      = [(alice, bob), (bob, carol)]"
    by (simp add: names pairAt_def)
  then show ?thesis by simp
qed


section \<open>Generation client: proofs\<close>

lemma poll_attempt_transient: "transient x \<Longrightarrow> poll_attempt x = Continue"
  by (auto simp: transient_def poll_attempt_def poll_try_def split: sum.splits if_splits)

lemma poll_attempt_other_status:
  "statusIs x st \<Longrightarrow> st \<noteq> ''completed'' \<Longrightarrow> st \<noteq> ''failed'' \<Longrightarrow> poll_attempt x = Continue"
  by (auto simp: statusIs_def poll_attempt_def poll_try_def split: sum.splits option.splits)

lemma poll_attempt_retried: "retried x \<Longrightarrow> poll_attempt x = Continue"
  unfolding retried_def
  using poll_attempt_transient [of x] poll_attempt_other_status [of x "''queued''"]
    poll_attempt_other_status [of x "''processing''"]
  by auto

lemma poll_attempt_failed: "observes x ''failed'' outs \<Longrightarrow> poll_attempt x = Return None"
  by (auto simp: observes_def poll_attempt_def poll_try_def split: sum.splits option.splits)

lemma poll_attempt_completed:
  "observes x ''completed'' outs \<Longrightarrow>
     poll_attempt x = Return (case outs of None \<Rightarrow> None | Some [] \<Rightarrow> None | Some (u # rest) \<Rightarrow> Some u)"
  by (auto simp: observes_def poll_attempt_def poll_try_def first_output_def
      split: sum.splits option.splits list.splits)

lemma poll_attempt_Some:
  "poll_attempt x = Return (Some u) \<Longrightarrow> \<exists>rest. observes x ''completed'' (Some (u # rest))"
  by (auto simp: observes_def poll_attempt_def poll_try_def first_output_def Let_def
      split: sum.splits option.splits list.splits if_splits)

lemma pollLoop_checks: "attempt \<le> m \<Longrightarrow> snd (pollLoop f m attempt) \<le> m"
proof (induction f m attempt rule: pollLoop.induct)
  case (1 f m attempt)
  then show ?case
    by (subst pollLoop.simps) (auto split: poll_step.splits)
qed

lemma pollLoop_Some:
  "pollLoop f m attempt = (Some u, c) \<Longrightarrow>
     \<exists>k. attempt \<le> k \<and> k < m \<and> c = Suc k \<and> poll_attempt (f k) = Return (Some u)"
proof (induction f m attempt rule: pollLoop.induct)
  case (1 f m attempt)
  from "1.prems" have lt: "attempt < m"
    by (subst (asm) pollLoop.simps) (auto split: if_splits)
  show ?case
  proof (cases "poll_attempt (f attempt)")
    case (Return r)
    with lt "1.prems" have "r = Some u" "c = Suc attempt"
      by (subst (asm) pollLoop.simps, simp)+
    with Return lt show ?thesis by auto
  next
    case Continue
    with lt "1.prems" have "pollLoop f m (Suc attempt) = (Some u, c)"
      by (subst (asm) pollLoop.simps) simp
    from "1.IH" [OF lt Continue this] show ?thesis
      using Suc_leD by blast
  qed
qed

lemma pollLoop_first_return:
  "attempt \<le> k \<Longrightarrow> k < m \<Longrightarrow> poll_attempt (f k) = Return r \<Longrightarrow>
   (\<And>i. attempt \<le> i \<Longrightarrow> i < k \<Longrightarrow> poll_attempt (f i) = Continue) \<Longrightarrow>
   pollLoop f m attempt = (r, Suc k)"
proof (induction f m attempt rule: pollLoop.induct)
  case (1 f m attempt)
  from "1.prems"(1,2) have lt: "attempt < m" by simp
  show ?case
  proof (cases "attempt = k")
    case True
    with lt "1.prems"(3) show ?thesis
      by (subst pollLoop.simps) simp
  next
    case False
    with "1.prems"(1) have less: "attempt < k" by simp
    then have cont: "poll_attempt (f attempt) = Continue"
      using "1.prems"(4) by simp
    have "pollLoop f m (Suc attempt) = (r, Suc k)"
      using less "1.prems"(2,3,4) by (intro "1.IH" [OF lt cont]) auto
    with lt cont show ?thesis
      by (subst pollLoop.simps) simp
  qed
qed

lemma pollLoop_timeout:
  "attempt \<le> m \<Longrightarrow> (\<And>i. attempt \<le> i \<Longrightarrow> i < m \<Longrightarrow> poll_attempt (f i) = Continue) \<Longrightarrow>
   pollLoop f m attempt = (None, m)"
proof (induction f m attempt rule: pollLoop.induct)
  case (1 f m attempt)
  show ?case
  proof (cases "attempt < m")
    case True
    then have cont: "poll_attempt (f attempt) = Continue"
      using "1.prems"(2) by simp
    have "pollLoop f m (Suc attempt) = (None, m)"
      using True "1.prems"(2) by (intro "1.IH" [OF True cont]) auto
    with True cont show ?thesis
      by (subst pollLoop.simps) simp
  next
    case False
    with "1.prems"(1) show ?thesis
      by (subst pollLoop.simps) simp
  qed
qed

text \<open>
  Claim C4: \<^verbatim>\<open>pollResult\<close> ends after at most \<open>maxAttempts\<close> status requests. It returns an
  output URL only when a request shows the status completed with a non-empty list of
  outputs. At the first request that is not retried, it returns the first output when the
  status is completed with outputs, failure when it is completed without outputs, and
  failure when it is failed. Requests that show queued or processing, or that fail
  transiently, are retried, and when all \<open>maxAttempts\<close> requests are of that kind the
  result is failure, after exactly \<open>maxAttempts\<close> requests.
\<close>

theorem pollResult_bounded:
  "snd (pollResult f maxAttempts) \<le> maxAttempts
   \<and> (\<forall>url. fst (pollResult f maxAttempts) = Some url \<longrightarrow>
         (\<exists>k rest. k < maxAttempts \<and> observes (f k) ''completed'' (Some (url # rest))
            \<and> snd (pollResult f maxAttempts) = Suc k))
   \<and> (\<forall>k. k < maxAttempts \<and> (\<forall>i<k. retried (f i)) \<longrightarrow>
         (\<forall>url rest. observes (f k) ''completed'' (Some (url # rest)) \<longrightarrow>
            pollResult f maxAttempts = (Some url, Suc k))
       \<and> (observes (f k) ''completed'' None \<or> observes (f k) ''completed'' (Some []) \<longrightarrow>
            pollResult f maxAttempts = (None, Suc k))
       \<and> (\<forall>outs. observes (f k) ''failed'' outs \<longrightarrow> pollResult f maxAttempts = (None, Suc k)))
   \<and> ((\<forall>i<maxAttempts. retried (f i)) \<longrightarrow> pollResult f maxAttempts = (None, maxAttempts))"
proof (intro conjI allI impI)
  show "snd (pollResult f maxAttempts) \<le> maxAttempts"
    by (simp add: pollResult_def pollLoop_checks)
next
  fix url assume "fst (pollResult f maxAttempts) = Some url"
  then have "pollLoop f maxAttempts 0 = (Some url, snd (pollResult f maxAttempts))"
    by (simp add: pollResult_def prod_eq_iff)
  from pollLoop_Some [OF this] obtain k where
    k: "k < maxAttempts" "snd (pollResult f maxAttempts) = Suc k"
      "poll_attempt (f k) = Return (Some url)"
    by blast
  from poll_attempt_Some [OF k(3)] k(1,2)
  show "\<exists>k rest. k < maxAttempts \<and> observes (f k) ''completed'' (Some (url # rest))
      \<and> snd (pollResult f maxAttempts) = Suc k"
    by blast
next
  fix k url rest
  assume h: "k < maxAttempts \<and> (\<forall>i<k. retried (f i))"
    and "observes (f k) ''completed'' (Some (url # rest))"
  then show "pollResult f maxAttempts = (Some url, Suc k)"
    unfolding pollResult_def
    by (intro pollLoop_first_return) (auto simp: poll_attempt_completed poll_attempt_retried)
next
  fix k
  assume h: "k < maxAttempts \<and> (\<forall>i<k. retried (f i))"
    and "observes (f k) ''completed'' None \<or> observes (f k) ''completed'' (Some [])"
  then show "pollResult f maxAttempts = (None, Suc k)"
    unfolding pollResult_def
    by (intro pollLoop_first_return) (auto simp: poll_attempt_completed poll_attempt_retried)
next
  fix k outs
  assume h: "k < maxAttempts \<and> (\<forall>i<k. retried (f i))"
    and "observes (f k) ''failed'' outs"
  then show "pollResult f maxAttempts = (None, Suc k)"
    unfolding pollResult_def
    by (intro pollLoop_first_return) (auto simp: poll_attempt_failed poll_attempt_retried)
next
  assume "\<forall>i<maxAttempts. retried (f i)"
  then show "pollResult f maxAttempts = (None, maxAttempts)"
    unfolding pollResult_def
    by (intro pollLoop_timeout) (auto simp: poll_attempt_retried)
qed


lemma observes_pollWith: "observes (pollWith st outs) st' outs' \<longleftrightarrow> st = st' \<and> outs = outs'"
  by (auto simp: observes_def pollWith_def)

lemma retried_processing: "retried (pollWith ''processing'' outs)"
  by (simp add: retried_def statusIs_def pollWith_def)

theorem pollResult_bounded_witness:
  "pollResult examplePolls 30 = (Some ''https://out'', 2) \<and> pollResult stuckPolls 30 = (None, 30)"
proof -
  have a: "(1::nat) < 30 \<and> (\<forall>i<1. retried (examplePolls i))"
    by (simp add: examplePolls_def retried_processing)
  have b: "observes (examplePolls 1) ''completed'' (Some (''https://out'' # []))"
    by (simp add: examplePolls_def observes_pollWith)
  have c: "\<forall>i<30. retried (stuckPolls i)"
    by (simp add: stuckPolls_def retried_processing)
  from pollResult_bounded [of examplePolls 30] a b
  have "pollResult examplePolls 30 = (Some ''https://out'', Suc 1)"
    by blast
  moreover from pollResult_bounded [of stuckPolls 30] c
  have "pollResult stuckPolls 30 = (None, 30)"
    by blast
  ultimately show ?thesis by simp
qed

section \<open>Submission: proofs\<close>

lemma submitJob_eq:
  "submitJob fetched = Inr (if submitFailure fetched then None else jobIdOf fetched)"
  by (auto simp: submitJob_def submitJob_try_def submitFailure_def jobIdOf_def truthy_def
      split: sum.splits option.splits)

lemma jobIdOf_truthy: "\<not> submitFailure fetched \<Longrightarrow> truthy (jobIdOf fetched)"
  by (auto simp: submitFailure_def jobIdOf_def truthy_def split: sum.splits option.splits if_splits)

lemma promiseAll_Inr: "promiseAll (map (\<lambda>k. Inr (g k)) ks) = Inr (map g ks)"
  by (induction ks) simp_all

lemma submitAll_eq:
  "submitAll env missing =
     Inr (map (\<lambda>k. if submitFailure (submit_fetch env k) then None else jobIdOf (submit_fetch env k))
            [0..<length missing])"
  unfolding submitAll_def submitJob_eq by (rule promiseAll_Inr)

lemma submittedJobs_indices_aux:
  "length ks = length ms \<Longrightarrow> length ms = length ids \<Longrightarrow>
   map fst (concat (map (\<lambda>(k, pair, predictionId).
        (case predictionId of
           None \<Rightarrow> []
         | Some pid \<Rightarrow> if pid = [] then [] else [(k, pair, pid, lab pair)]))
       (zip ks (zip ms ids)))) = map fst (filter (\<lambda>(k, i). truthy i) (zip ks ids))"
  by (induction ks ms ids rule: list_induct3) (auto simp: truthy_def split: option.splits)

lemma zip_upt_nth: "length xs = n \<Longrightarrow> zip [0..<n] xs = map (\<lambda>k. (k, xs ! k)) [0..<n]"
  by (auto intro!: nth_equalityI)

lemma submittedJobs_indices:
  assumes "length ids = length missing"
  shows "map fst (submittedJobs lc missing ids) = filter (\<lambda>k. truthy (ids ! k)) [0..<length missing]"
proof -
  have "map fst (submittedJobs lc missing ids)
      = map fst (filter (\<lambda>(k, i). truthy i) (zip [0..<length missing] ids))"
    unfolding submittedJobs_def using assms
    by (intro submittedJobs_indices_aux) simp_all
  also have "\<dots> = filter (\<lambda>k. truthy (ids ! k)) [0..<length missing]"
    using assms by (simp add: zip_upt_nth filter_map comp_def)
  finally show ?thesis .
qed

lemma length_submittedJobs:
  assumes "length ids = length missing"
  shows "length (submittedJobs lc missing ids) \<le> length missing"
proof -
  have "length (submittedJobs lc missing ids) = length (map fst (submittedJobs lc missing ids))"
    by simp
  also have "\<dots> \<le> length [0..<length missing]"
    unfolding submittedJobs_indices [OF assms] by (rule length_filter_le)
  finally show ?thesis by simp
qed

lemma generate_eq:
  "generate lc env missing =
     (let ids = map (\<lambda>k. if submitFailure (submit_fetch env k) then None
                           else jobIdOf (submit_fetch env k)) [0..<length missing];
          submitted = submittedJobs lc missing ids
      in \<lparr>response = Inr (summary (length missing) (length submitted) (jobResults env submitted)),
          submit_calls = map (\<lambda>pair. (person_image (fst pair), person_image (snd pair))) missing,
          insert_calls = jobInserts env submitted\<rparr>)"
  by (simp add: generate_def submitAll_eq Let_def)

text \<open>
  Claim C7: \<^verbatim>\<open>submitJob\<close> never throws: it returns \<^verbatim>\<open>null\<close> on every failure of the submission
  (a thrown request, a non-success HTTP status, a malformed body, a \<^verbatim>\<open>code\<close> other than 200,
  a missing or empty identifier) and otherwise the non-empty identifier the response
  carried. In the handler every missing pair is submitted whatever the other submissions
  give, and the submitted jobs are those of the pairs whose own submission did not fail.
\<close>

theorem submitJob_never_throws:
  "submitJob fetched = Inr (if submitFailure fetched then None else jobIdOf fetched)
   \<and> (\<not> submitFailure fetched \<longrightarrow> truthy (jobIdOf fetched))
   \<and> (\<exists>ids. submitAll env missing = Inr ids
        \<and> length ids = length missing
        \<and> (\<forall>k<length missing. submitJob (submit_fetch env k) = Inr (ids ! k))
        \<and> map fst (submittedJobs lc missing ids)
            = filter (\<lambda>k. \<not> submitFailure (submit_fetch env k)) [0..<length missing])
   \<and> submit_calls (generate lc env missing)
       = map (\<lambda>pair. (person_image (fst pair), person_image (snd pair))) missing"
proof (intro conjI)
  let ?ids = "map (\<lambda>k. if submitFailure (submit_fetch env k) then None
                         else jobIdOf (submit_fetch env k)) [0..<length missing]"
  have len: "length ?ids = length missing" by simp
  have nth: "\<forall>k<length missing. submitJob (submit_fetch env k) = Inr (?ids ! k)"
    by (simp add: submitJob_eq)
  have "filter (\<lambda>k. truthy (?ids ! k)) [0..<length missing]
      = filter (\<lambda>k. \<not> submitFailure (submit_fetch env k)) [0..<length missing]"
  proof (rule filter_cong)
    fix k assume "k \<in> set [0..<length missing]"
    then have k: "k < length missing" by simp
    show "truthy (?ids ! k) = (\<not> submitFailure (submit_fetch env k))"
      using jobIdOf_truthy [of "submit_fetch env k"] k by (simp add: truthy_def)
  qed simp
  then have idx: "map fst (submittedJobs lc missing ?ids)
      = filter (\<lambda>k. \<not> submitFailure (submit_fetch env k)) [0..<length missing]"
    using submittedJobs_indices [OF len, of lc] by simp
  show "\<exists>ids. submitAll env missing = Inr ids
        \<and> length ids = length missing
        \<and> (\<forall>k<length missing. submitJob (submit_fetch env k) = Inr (ids ! k))
        \<and> map fst (submittedJobs lc missing ids)
            = filter (\<lambda>k. \<not> submitFailure (submit_fetch env k)) [0..<length missing]"
    using submitAll_eq [of env missing] len nth idx by blast
qed (simp_all add: submitJob_eq jobIdOf_truthy generate_eq Let_def)


theorem submitJob_never_throws_witness:
  "submitJob (submitsFlaky 0) = Inr None \<and> submitJob (submitsFlaky 1) = Inr (Some ''job'')
   \<and> map fst (submittedJobs codeCompare [(alice, bob), (alice, carol), (bob, carol)]
        [None, Some ''job'', Some ''job'']) = [1, 2]"
proof -
  let ?env = "exampleEnv [alice, bob, carol] [] submitsFlaky examplePolls insertAccepted"
  let ?missing = "[(alice, bob), (alice, carol), (bob, carol)]"
  have f0: "submitFailure (submitsFlaky 0)"
    by (simp add: submitsFlaky_def submitFailure_def)
  have f1: "\<not> submitFailure (submitsFlaky k)" if "k \<noteq> 0" for k
    using that by (simp add: submitsFlaky_def submitFailure_def submitOk_def)
  have j1: "jobIdOf (submitsFlaky k) = Some ''job''" if "k \<noteq> 0" for k
    using that by (simp add: submitsFlaky_def jobIdOf_def submitOk_def)
  have sf: "submit_fetch ?env = submitsFlaky"
    by (simp add: exampleEnv_def)
  have up: "[0..<length ?missing] = [0, 1, 2]"
    by (simp add: upt_rec)
  from submitJob_never_throws [of "submitsFlaky 0" ?env ?missing codeCompare] f0
  have a: "submitJob (submitsFlaky 0) = Inr None"
    by simp
  from submitJob_never_throws [of "submitsFlaky 1" ?env ?missing codeCompare] f1 [of 1] j1 [of 1]
  have b: "submitJob (submitsFlaky 1) = Inr (Some ''job'')"
    by simp
  from submitJob_never_throws [of "submitsFlaky 0" ?env ?missing codeCompare]
  obtain ids where ids: "submitAll ?env ?missing = Inr ids"
    "map fst (submittedJobs codeCompare ?missing ids)
       = filter (\<lambda>k. \<not> submitFailure (submit_fetch ?env k)) [0..<length ?missing]"
    by blast
  have "submitAll ?env ?missing = Inr [None, Some ''job'', Some ''job'']"
    unfolding submitAll_eq sf up using f0 f1 j1 by simp
  with ids(1) have "ids = [None, Some ''job'', Some ''job'']" by simp
  with ids(2) have c: "map fst (submittedJobs codeCompare ?missing [None, Some ''job'', Some ''job''])
      = [1, 2]"
    unfolding sf up using f0 f1 by simp
  from a b c show ?thesis by blast
qed

section \<open>Route handler: proofs\<close>

lemma POST_thrown:
  "clientThrown env = Some e \<Longrightarrow>
   POST lc env = \<lparr>response = Inl e, submit_calls = [], insert_calls = []\<rparr>"
  by (auto simp: POST_def clientThrown_def configured_def split: if_splits)

lemma POST_fatal:
  "fatal env \<Longrightarrow> clientThrown env = None \<Longrightarrow>
   \<exists>msg. POST lc env = jsonResponse [(''error'', JString msg)] 500"
  by (auto simp: POST_def fatal_def clientThrown_def configured_def enoughPeople_def
      split: if_splits option.splits)

lemma POST_not_enough:
  "configured env \<Longrightarrow> clientThrown env = None \<Longrightarrow> people_error env = None \<Longrightarrow>
   \<not> enoughPeople env \<Longrightarrow>
   POST lc env = jsonResponse [(''message'', JString ''Not enough people yet'')] 200"
  by (auto simp: POST_def clientThrown_def configured_def enoughPeople_def split: option.splits)

lemma POST_enough:
  "\<not> fatal env \<Longrightarrow> enoughPeople env \<Longrightarrow>
   POST lc env =
     (if missingOf lc env = [] then
        jsonResponse [(''message'', JString ''All combinations already generated'')] 200
      else generate lc env (missingOf lc env))"
  by (auto simp: POST_def fatal_def clientThrown_def configured_def enoughPeople_def missingOf_def
      peopleOf_def existingNamesOf_def Let_def split: option.splits if_splits)

lemma responseKeys_jsonResponse [simp]: "responseKeys (jsonResponse b st) = map fst b"
  by (simp add: responseKeys_def jsonResponse_def keys_def)

lemma responseStatus_jsonResponse [simp]: "responseStatus (jsonResponse b st) = Some st"
  by (simp add: responseStatus_def jsonResponse_def)

lemma responseKeys_generate [simp]: "responseKeys (generate lc env missing) = summaryKeys"
  by (simp add: generate_eq Let_def responseKeys_def keys_def summary_def summaryKeys_def)

lemma responseStatus_generate [simp]: "responseStatus (generate lc env missing) = Some 200"
  by (simp add: generate_eq Let_def responseStatus_def summary_def)

lemma not_fatal_configured:
  "\<not> fatal env \<Longrightarrow> configured env \<and> clientThrown env = None \<and> people_error env = None"
  by (auto simp: fatal_def split: if_splits)


text \<open>Example evaluations shared by the closed theorems below.\<close>

lemma pollResult_examplePolls: "pollResult examplePolls 30 = (Some ''https://out'', 2)"
proof -
  have "pollLoop examplePolls 30 0 = (Some ''https://out'', Suc 1)"
  proof (rule pollLoop_first_return)
    show "poll_attempt (examplePolls 1) = Return (Some ''https://out'')"
      by (simp add: examplePolls_def poll_attempt_completed observes_pollWith)
    show "poll_attempt (examplePolls i) = Continue" if "i < 1" for i
      using that by (simp add: examplePolls_def poll_attempt_retried retried_processing)
  qed simp_all
  then show ?thesis by (simp add: pollResult_def)
qed

lemma pollResult_stuckPolls: "pollResult stuckPolls 30 = (None, 30)"
  unfolding pollResult_def
  by (rule pollLoop_timeout) (simp_all add: stuckPolls_def poll_attempt_retried retried_processing)

lemma exampleEnv_not_fatal: "\<not> fatal (exampleEnv people generated submits polls ins)"
  by (simp add: fatal_def clientThrown_def configured_def exampleEnv_def truthy_def clientFor_def
      envValue_def)

lemma exampleEnv_enoughPeople:
  "enoughPeople (exampleEnv people generated submits polls ins) \<longleftrightarrow> 2 \<le> length people"
  by (simp add: enoughPeople_def exampleEnv_def)

lemma exampleEnv_missingOf:
  "missingOf lc (exampleEnv people generated submits polls ins) = missingPairs lc people (set generated)"
  by (simp add: missingOf_def peopleOf_def existingNamesOf_def exampleEnv_def)

lemma missing_alice_bob: "missingPairs codeCompare [alice, bob] {} = [(alice, bob)]"
  by (simp add: missingPairs_eq indexPairs_def labelDone_def pairAt_def)

lemma submitJob_submitOk: "submitFailure (submitOk pid) \<longleftrightarrow> pid = []"
  "jobIdOf (submitOk pid) = Some pid"
  by (simp_all add: submitFailure_def jobIdOf_def submitOk_def)

lemma generate_alice_bob:
  "generate codeCompare (exampleEnv people generated submitsOk polls ins) [(alice, bob)] =
     \<lparr>response = Inr (summary 1 1 [settleJob ''Alice x Bob'' polls (ins 0)]),
      submit_calls = [(''https://img/alice'', ''https://img/bob'')],
      insert_calls = insertOf ''Alice x Bob'' polls\<rparr>"
  by (simp add: generate_eq Let_def submitsOk_def submitJob_submitOk submittedJobs_def
      jobResults_def jobInserts_def exampleEnv_def canonicalName_def alice_def bob_def)


lemma numberField_generate:
  "numberField ''total'' (generate lc env missing) = Some (length missing)"
  "numberField ''submitted'' (generate lc env missing) = Some (length (submittedOf lc env missing))"
  "numberField ''succeeded'' (generate lc env missing)
     = Some (length (filter isFulfilled (jobResults env (submittedOf lc env missing))))"
  "numberField ''failed'' (generate lc env missing)
     = Some (length (filter isRejected (jobResults env (submittedOf lc env missing))))"
  by (simp_all add: generate_eq submittedOf_def submitAll_eq Let_def numberField_def summary_def)

lemma length_submittedOf: "length (submittedOf lc env missing) \<le> length missing"
  unfolding submittedOf_def submitAll_eq by (simp add: length_submittedJobs)

lemma fulfilled_or_rejected:
  "length (filter isFulfilled rs) + length (filter isRejected rs) = length rs"
proof -
  have "isRejected = (\<lambda>r. \<not> isFulfilled r)"
    by (auto simp: isRejected_def isFulfilled_def fun_eq_iff split: settled.splits)
  then show ?thesis
    using sum_length_filter_compl [of isFulfilled rs] by simp
qed

lemma length_jobResults: "length (jobResults env submitted) = length submitted"
  by (simp add: jobResults_def)

text \<open>
  Claim C10: an invocation that reaches the summary (it is not fatal, there are two people
  or more, and some pair is missing) reports counts with succeeded + failed = submitted
  and submitted \<open>\<le>\<close> total, where total is the number of missing pairs; the counts are
  natural numbers.
\<close>

theorem summary_counts:
  "\<not> fatal env \<and> enoughPeople env \<and> missingOf lc env \<noteq> [] \<longrightarrow>
     (\<exists>total submitted succeeded failed.
        numberField ''total'' (POST lc env) = Some total
        \<and> numberField ''submitted'' (POST lc env) = Some submitted
        \<and> numberField ''succeeded'' (POST lc env) = Some succeeded
        \<and> numberField ''failed'' (POST lc env) = Some failed
        \<and> succeeded + failed = submitted
        \<and> submitted \<le> total
        \<and> total = length (missingOf lc env))"
proof
  assume h: "\<not> fatal env \<and> enoughPeople env \<and> missingOf lc env \<noteq> []"
  then have run: "POST lc env = generate lc env (missingOf lc env)"
    by (simp add: POST_enough)
  show "\<exists>total submitted succeeded failed.
        numberField ''total'' (POST lc env) = Some total
        \<and> numberField ''submitted'' (POST lc env) = Some submitted
        \<and> numberField ''succeeded'' (POST lc env) = Some succeeded
        \<and> numberField ''failed'' (POST lc env) = Some failed
        \<and> succeeded + failed = submitted
        \<and> submitted \<le> total
        \<and> total = length (missingOf lc env)"
    unfolding run numberField_generate
    using fulfilled_or_rejected [of "jobResults env (submittedOf lc env (missingOf lc env))"]
      length_submittedOf [of lc env "missingOf lc env"]
    by (simp add: length_jobResults)
qed

theorem summary_counts_witness:
  "numberField ''total'' (POST codeCompare (exampleEnv [alice, bob] [] submitsOk stuckPolls insertAccepted)) = Some 1
   \<and> numberField ''submitted'' (POST codeCompare (exampleEnv [alice, bob] [] submitsOk stuckPolls insertAccepted)) = Some 1
   \<and> numberField ''succeeded'' (POST codeCompare (exampleEnv [alice, bob] [] submitsOk stuckPolls insertAccepted)) = Some 0
   \<and> numberField ''failed'' (POST codeCompare (exampleEnv [alice, bob] [] submitsOk stuckPolls insertAccepted)) = Some 1"
proof -
  let ?env = "exampleEnv [alice, bob] [] submitsOk stuckPolls insertAccepted"
  have m: "missingOf codeCompare ?env = [(alice, bob)]"
    by (simp add: exampleEnv_missingOf missing_alice_bob)
  have h: "\<not> fatal ?env \<and> enoughPeople ?env \<and> missingOf codeCompare ?env \<noteq> []"
    by (simp add: exampleEnv_not_fatal exampleEnv_enoughPeople m)
  have run: "POST codeCompare ?env = generate codeCompare ?env [(alice, bob)]"
    using h m by (simp add: POST_enough)
  have f: "numberField ''failed'' (POST codeCompare ?env) = Some 1"
    unfolding run generate_alice_bob
    by (simp add: numberField_def summary_def settleJob_def pollResult_stuckPolls truthy_def
        isRejected_def isFulfilled_def)
  from summary_counts [of ?env codeCompare] h m f show ?thesis
    by auto
qed

text \<open>
  Claim C6: when the configuration is present, the store client is created, and the read
  of the people succeeds and gives fewer than two people, the invocation answers with the
  status 200 and the message "Not enough people yet", submits no job and inserts nothing.
\<close>

theorem not_enough_people:
  "configured env \<and> clientThrown env = None \<and> people_error env = None
     \<and> length (peopleOf env) < 2 \<longrightarrow>
     response (POST lc env)
       = Inr \<lparr>body = [(''message'', JString ''Not enough people yet'')], http_status = 200\<rparr>
     \<and> submit_calls (POST lc env) = []
     \<and> insert_calls (POST lc env) = []"
proof
  assume h: "configured env \<and> clientThrown env = None \<and> people_error env = None
     \<and> length (peopleOf env) < 2"
  then have "\<not> enoughPeople env"
    by (auto simp: enoughPeople_def peopleOf_def split: option.splits)
  with h have "POST lc env = jsonResponse [(''message'', JString ''Not enough people yet'')] 200"
    by (simp add: POST_not_enough)
  then show "response (POST lc env)
       = Inr \<lparr>body = [(''message'', JString ''Not enough people yet'')], http_status = 200\<rparr>
     \<and> submit_calls (POST lc env) = []
     \<and> insert_calls (POST lc env) = []"
    by (simp add: jsonResponse_def)
qed

theorem not_enough_people_witness:
  "response (POST codeCompare (exampleEnv [alice] [] submitsOk examplePolls insertAccepted))
     = Inr \<lparr>body = [(''message'', JString ''Not enough people yet'')], http_status = 200\<rparr>
   \<and> submit_calls (POST codeCompare (exampleEnv [alice] [] submitsOk examplePolls insertAccepted)) = []
   \<and> insert_calls (POST codeCompare (exampleEnv [alice] [] submitsOk examplePolls insertAccepted)) = []"
proof -
  let ?env = "exampleEnv [alice] [] submitsOk examplePolls insertAccepted"
  have "configured ?env \<and> clientThrown ?env = None"
    using not_fatal_configured [OF exampleEnv_not_fatal] by blast
  moreover have "people_error ?env = None \<and> length (peopleOf ?env) < 2"
    by (simp add: exampleEnv_def peopleOf_def)
  ultimately have h: "configured ?env \<and> clientThrown ?env = None \<and> people_error ?env = None
      \<and> length (peopleOf ?env) < 2"
    by blast
  from not_enough_people [of ?env codeCompare] h show ?thesis
    by blast
qed

lemma missingPairs_Nil_iff:
  "missingPairs lc people ex = [] \<longleftrightarrow>
     (\<forall>ij\<in>set (indexPairs (length people)). labelAt lc people ij \<in> ex)"
  by (simp add: missingPairs_eq filter_empty_conv labelDone_def)

lemma fulfilledName_settleJob:
  "fulfilledName (settleJob name fetches insertErr) = []
   \<or> fulfilledName (settleJob name fetches insertErr) = [name]"
  by (simp add: fulfilledName_def settleJob_def Let_def split: option.splits)

lemma fulfilled_jobs_aux:
  fixes ks :: "nat list" and ms :: "(Person \<times> Person) list" and ids :: "string option list"
    and lc :: "string \<Rightarrow> string \<Rightarrow> int"
  defines "g \<equiv> (\<lambda>(k, pair, predictionId).
        (case predictionId of
           None \<Rightarrow> []
         | Some pid \<Rightarrow> if pid = [] then [] else [(k, pair, pid, labelOf lc pair)]))"
  assumes "length ks = length ms" "length ms = length ids"
  shows "length (concat (map fulfilledName (jobResults env (concat (map g (zip ks (zip ms ids)))))))
           \<le> length ms
       \<and> (length (concat (map fulfilledName (jobResults env (concat (map g (zip ks (zip ms ids)))))))
            = length ms \<longrightarrow>
          concat (map fulfilledName (jobResults env (concat (map g (zip ks (zip ms ids))))))
            = map (labelOf lc) ms)"
  using assms(2,3)
proof (induction ks ms ids rule: list_induct3)
  case Nil
  then show ?case by (simp add: jobResults_def)
next
  case (Cons k ks m ms i ids)
  let ?F = "\<lambda>jobs. concat (map fulfilledName (jobResults env jobs))"
  have app: "?F (a @ b) = ?F a @ ?F b" for a b
    by (simp add: jobResults_def)
  define a where "a = ?F (g (k, m, i))"
  define b where "b = ?F (concat (map g (zip ks (zip ms ids))))"
  have head: "a = [] \<or> a = [labelOf lc m]"
    unfolding a_def
    using fulfilledName_settleJob [of "labelOf lc m" "poll_fetch env k" "insert_error env k"]
    by (auto simp: g_def jobResults_def split: option.splits)
  have step: "?F (concat (map g (zip (k # ks) (zip (m # ms) (i # ids))))) = a @ b"
    by (simp add: app a_def b_def)
  have IH: "length b \<le> length ms \<and> (length b = length ms \<longrightarrow> b = map (labelOf lc) ms)"
    using Cons.IH by (simp add: b_def)
  have "length (a @ b) \<le> length (m # ms)
      \<and> (length (a @ b) = length (m # ms) \<longrightarrow> a @ b = map (labelOf lc) (m # ms))"
    using head IH by auto
  then show ?case
    unfolding step .
qed

lemma fulfilledNames_all:
  assumes "length (fulfilledNames lc env) = length (missingOf lc env)"
  shows "fulfilledNames lc env = map (labelOf lc) (missingOf lc env)"
proof -
  let ?missing = "missingOf lc env"
  let ?ids = "map (\<lambda>k. if submitFailure (submit_fetch env k) then None
                         else jobIdOf (submit_fetch env k)) [0..<length ?missing]"
  have jobs: "submittedOf lc env ?missing = submittedJobs lc ?missing ?ids"
    by (simp add: submittedOf_def submitAll_eq)
  have "length [0..<length ?missing] = length ?missing" "length ?missing = length ?ids"
    by simp_all
  from fulfilled_jobs_aux [OF this, of env lc] assms show ?thesis
    unfolding fulfilledNames_def jobs submittedJobs_def labelOf_def by blast
qed

lemma labels_after_run:
  assumes "length (fulfilledNames lc env) = length (missingOf lc env)"
    and "ij \<in> set (indexPairs (length (peopleOf env)))"
  shows "labelAt lc (peopleOf env) ij \<in> existingNamesOf env \<union> set (fulfilledNames lc env)"
proof (cases "labelDone lc (peopleOf env) (existingNamesOf env) ij")
  case True
  then show ?thesis by (simp add: labelDone_def)
next
  case False
  with assms(2) have "pairAt (peopleOf env) ij \<in> set (missingOf lc env)"
    unfolding missingOf_def missingPairs_eq set_map by (intro imageI) simp
  then have "labelOf lc (pairAt (peopleOf env) ij) \<in> set (fulfilledNames lc env)"
    unfolding fulfilledNames_all [OF assms(1)] set_map by (rule imageI)
  then show ?thesis
    by (simp add: labelOf_def pairAt_def labelAt_def)
qed

lemma no_work_when_all_done:
  assumes nf: "\<not> fatal env"
    and all_in: "\<And>ij. ij \<in> set (indexPairs (length (peopleOf env))) \<Longrightarrow>
      labelAt lc (peopleOf env) ij \<in> existingNamesOf env"
  shows "missingOf lc env = []
     \<and> responseStatus (POST lc env) = Some 200
     \<and> responseKeys (POST lc env) = [''message'']
     \<and> submit_calls (POST lc env) = []
     \<and> insert_calls (POST lc env) = []"
proof -
  from all_in have none: "missingOf lc env = []"
    by (simp add: missingOf_def missingPairs_Nil_iff)
  have "\<exists>msg. POST lc env = jsonResponse [(''message'', JString msg)] 200"
  proof (cases "enoughPeople env")
    case True
    then have "POST lc env
        = jsonResponse [(''message'', JString ''All combinations already generated'')] 200"
      using none by (simp add: POST_enough [OF nf])
    then show ?thesis by blast
  next
    case False
    then have "POST lc env = jsonResponse [(''message'', JString ''Not enough people yet'')] 200"
      using not_fatal_configured [OF nf] by (simp add: POST_not_enough)
    then show ?thesis by blast
  qed
  then obtain msg where "POST lc env = jsonResponse [(''message'', JString msg)] 200" ..
  with none show ?thesis
    by (simp add: jsonResponse_def responseStatus_def responseKeys_def keys_def)
qed

text \<open>
  Claim C5: when the label of every enumerated pair is already in the generated table,
  an invocation that is not fatal computes no missing pair, submits no job, inserts no
  row and answers with the status 200. In particular a second invocation does so, when it
  reads the same people and a table holding what the first one read and the labels of
  the jobs the first one settled as fulfilled, and the first one settled a job as
  fulfilled for each of its missing pairs.
\<close>

theorem all_generated_no_work:
  "(\<not> fatal env
    \<and> (\<forall>ij\<in>set (indexPairs (length (peopleOf env))).
          labelAt lc (peopleOf env) ij \<in> existingNamesOf env) \<longrightarrow>
      missingOf lc env = []
      \<and> responseStatus (POST lc env) = Some 200
      \<and> responseKeys (POST lc env) = [''message'']
      \<and> submit_calls (POST lc env) = []
      \<and> insert_calls (POST lc env) = [])
   \<and> (length (fulfilledNames lc env) = length (missingOf lc env)
      \<and> peopleOf second = peopleOf env
      \<and> existingNamesOf env \<union> set (fulfilledNames lc env) \<subseteq> existingNamesOf second
      \<and> \<not> fatal second \<longrightarrow>
      missingOf lc second = []
      \<and> responseStatus (POST lc second) = Some 200
      \<and> responseKeys (POST lc second) = [''message'']
      \<and> submit_calls (POST lc second) = []
      \<and> insert_calls (POST lc second) = [])"
proof (rule conjI; rule impI)
  assume "\<not> fatal env
    \<and> (\<forall>ij\<in>set (indexPairs (length (peopleOf env))).
          labelAt lc (peopleOf env) ij \<in> existingNamesOf env)"
  then show "missingOf lc env = []
      \<and> responseStatus (POST lc env) = Some 200
      \<and> responseKeys (POST lc env) = [''message'']
      \<and> submit_calls (POST lc env) = []
      \<and> insert_calls (POST lc env) = []"
    by (intro no_work_when_all_done) simp_all
next
  assume h: "length (fulfilledNames lc env) = length (missingOf lc env)
      \<and> peopleOf second = peopleOf env
      \<and> existingNamesOf env \<union> set (fulfilledNames lc env) \<subseteq> existingNamesOf second
      \<and> \<not> fatal second"
  have "labelAt lc (peopleOf second) ij \<in> existingNamesOf second"
    if "ij \<in> set (indexPairs (length (peopleOf second)))" for ij
    using labels_after_run [of lc env ij] h that by auto
  with h show "missingOf lc second = []
      \<and> responseStatus (POST lc second) = Some 200
      \<and> responseKeys (POST lc second) = [''message'']
      \<and> submit_calls (POST lc second) = []
      \<and> insert_calls (POST lc second) = []"
    by (intro no_work_when_all_done) simp_all
qed

theorem all_generated_no_work_witness:
  "missingOf codeCompare (exampleEnv [alice, bob] [''Alice x Bob''] submitsOk examplePolls insertAccepted) = []
   \<and> responseStatus (POST codeCompare (exampleEnv [alice, bob] [''Alice x Bob''] submitsOk examplePolls insertAccepted)) = Some 200
   \<and> submit_calls (POST codeCompare (exampleEnv [alice, bob] [''Alice x Bob''] submitsOk examplePolls insertAccepted)) = []
   \<and> insert_calls (POST codeCompare (exampleEnv [alice, bob] [''Alice x Bob''] submitsOk examplePolls insertAccepted)) = []
   \<and> fulfilledNames codeCompare (exampleEnv [alice, bob] [] submitsOk examplePolls insertAccepted)
       = [''Alice x Bob'']"
proof -
  let ?first = "exampleEnv [alice, bob] [] submitsOk examplePolls insertAccepted"
  let ?env = "exampleEnv [alice, bob] [''Alice x Bob''] submitsOk examplePolls insertAccepted"
  have p: "peopleOf ?env = [alice, bob]" and e: "existingNamesOf ?env = {''Alice x Bob''}"
    and p1: "peopleOf ?first = [alice, bob]" and e1: "existingNamesOf ?first = {}"
    by (simp_all add: peopleOf_def existingNamesOf_def exampleEnv_def)
  have h: "\<not> fatal ?env \<and> (\<forall>ij\<in>set (indexPairs (length (peopleOf ?env))).
         labelAt codeCompare (peopleOf ?env) ij \<in> existingNamesOf ?env)"
    unfolding p e
    by (simp add: exampleEnv_not_fatal indexPairs_def labelAt_def canonicalName_def alice_def bob_def)
  have m: "missingOf codeCompare ?first = [(alice, bob)]"
    by (simp add: exampleEnv_missingOf missing_alice_bob)
  have s: "submittedOf codeCompare ?first [(alice, bob)]
      = [(0, (alice, bob), ''job'', ''Alice x Bob'')]"
    by (simp add: submittedOf_def submitAll_eq submittedJobs_def exampleEnv_def submitsOk_def
        submitJob_submitOk canonicalName_def alice_def bob_def)
  have f: "fulfilledNames codeCompare ?first = [''Alice x Bob'']"
    unfolding fulfilledNames_def m s
    by (simp add: jobResults_def exampleEnv_def settleJob_def pollResult_examplePolls truthy_def
        insertAccepted_def fulfilledName_def)
  have h2: "length (fulfilledNames codeCompare ?first) = length (missingOf codeCompare ?first)
      \<and> peopleOf ?env = peopleOf ?first
      \<and> existingNamesOf ?first \<union> set (fulfilledNames codeCompare ?first) \<subseteq> existingNamesOf ?env
      \<and> \<not> fatal ?env"
    unfolding f m p p1 e e1 by (simp add: exampleEnv_not_fatal)
  from all_generated_no_work [where env = ?env and lc = codeCompare] h
  have a: "missingOf codeCompare ?env = [] \<and> responseStatus (POST codeCompare ?env) = Some 200"
    by blast
  from all_generated_no_work [where env = ?first and lc = codeCompare and second = ?env] h2
  have b: "submit_calls (POST codeCompare ?env) = [] \<and> insert_calls (POST codeCompare ?env) = []"
    by blast
  from a b f show ?thesis by blast
qed

text \<open>
  Claim C8, as amended: an invocation that is not fatal (the configuration is present,
  the store client is created and no read the handler makes fails) answers with the
  status 200 and a body that has the key \<^verbatim>\<open>message\<close>; the body has all of \<^verbatim>\<open>message\<close>,
  \<^verbatim>\<open>total\<close>, \<^verbatim>\<open>submitted\<close>, \<^verbatim>\<open>succeeded\<close> and \<^verbatim>\<open>failed\<close> when there are two people or more and
  some pair is missing, and \<^verbatim>\<open>message\<close> alone otherwise. Of the fatal invocations, those
  with a missing configuration or a failed read answer with the status 500 and a body
  that has the key \<^verbatim>\<open>error\<close> alone; when the configuration is present and \<^verbatim>\<open>createClient\<close>
  throws on it, the handler throws that exception and gives no response. No invocation
  submits or inserts anything unless it is not fatal.
\<close>

theorem response_shape:
  "(\<not> fatal env \<longrightarrow>
      responseStatus (POST lc env) = Some 200
      \<and> responseKeys (POST lc env) =
          (if enoughPeople env \<and> missingOf lc env \<noteq> [] then summaryKeys else [''message'']))
   \<and> (fatal env \<and> clientThrown env = None \<longrightarrow>
      responseStatus (POST lc env) = Some 500 \<and> responseKeys (POST lc env) = [''error''])
   \<and> (\<forall>e. clientThrown env = Some e \<longrightarrow> fatal env \<and> configured env \<and> response (POST lc env) = Inl e)
   \<and> (fatal env \<longrightarrow> submit_calls (POST lc env) = [] \<and> insert_calls (POST lc env) = [])"
proof (intro conjI impI allI)
  assume nf: "\<not> fatal env"
  show "responseStatus (POST lc env) = Some 200"
  proof (cases "enoughPeople env")
    case True
    then show ?thesis by (simp add: POST_enough [OF nf])
  next
    case False
    then show ?thesis using not_fatal_configured [OF nf] by (simp add: POST_not_enough)
  qed
  show "responseKeys (POST lc env) =
          (if enoughPeople env \<and> missingOf lc env \<noteq> [] then summaryKeys else [''message''])"
  proof (cases "enoughPeople env")
    case True
    then show ?thesis by (simp add: POST_enough [OF nf])
  next
    case False
    then show ?thesis using not_fatal_configured [OF nf] by (simp add: POST_not_enough)
  qed
next
  assume f: "fatal env \<and> clientThrown env = None"
  then obtain msg where "POST lc env = jsonResponse [(''error'', JString msg)] 500"
    using POST_fatal [of env lc] by blast
  then show "responseStatus (POST lc env) = Some 500" "responseKeys (POST lc env) = [''error'']"
    by simp_all
next
  fix e assume t: "clientThrown env = Some e"
  then show "fatal env" by (simp add: fatal_def)
  from t show "configured env" by (simp add: clientThrown_def split: if_splits)
  from t show "response (POST lc env) = Inl e" by (simp add: POST_thrown)
next
  assume f: "fatal env"
  have "submit_calls (POST lc env) = [] \<and> insert_calls (POST lc env) = []"
  proof (cases "clientThrown env")
    case None
    with f obtain msg where "POST lc env = jsonResponse [(''error'', JString msg)] 500"
      using POST_fatal [of env lc] by blast
    then show ?thesis by (simp add: jsonResponse_def)
  next
    case (Some e)
    then show ?thesis by (simp add: POST_thrown)
  qed
  then show "submit_calls (POST lc env) = []" "insert_calls (POST lc env) = []"
    by simp_all
qed

theorem response_shape_witness:
  "responseStatus (POST codeCompare (exampleEnv [alice, bob] [] submitsOk examplePolls insertAccepted)) = Some 200
   \<and> responseKeys (POST codeCompare (exampleEnv [alice, bob] [] submitsOk examplePolls insertAccepted)) = summaryKeys
   \<and> responseStatus (POST codeCompare
        ((exampleEnv [alice, bob] [] submitsOk examplePolls insertAccepted)\<lparr>WAVESPEED_API_KEY := None\<rparr>)) = Some 500
   \<and> responseKeys (POST codeCompare
        ((exampleEnv [alice, bob] [] submitsOk examplePolls insertAccepted)\<lparr>WAVESPEED_API_KEY := None\<rparr>)) = [''error'']
   \<and> response (POST codeCompare
        ((exampleEnv [alice, bob] [] submitsOk examplePolls insertAccepted)
           \<lparr>NEXT_PUBLIC_SUPABASE_URL := Some ''db''\<rparr>)) = Inl TypeError
   \<and> submit_calls (POST codeCompare
        ((exampleEnv [alice, bob] [] submitsOk examplePolls insertAccepted)
           \<lparr>NEXT_PUBLIC_SUPABASE_URL := Some ''db''\<rparr>)) = []"
proof -
  let ?env = "exampleEnv [alice, bob] [] submitsOk examplePolls insertAccepted"
  let ?nokey = "?env\<lparr>WAVESPEED_API_KEY := None\<rparr>"
  let ?badurl = "?env\<lparr>NEXT_PUBLIC_SUPABASE_URL := Some ''db''\<rparr>"
  have h: "\<not> fatal ?env" "enoughPeople ?env \<and> missingOf codeCompare ?env \<noteq> []"
    by (simp_all add: exampleEnv_not_fatal exampleEnv_enoughPeople exampleEnv_missingOf
        missing_alice_bob)
  have f: "fatal ?nokey \<and> clientThrown ?nokey = None"
    by (simp add: fatal_def clientThrown_def configured_def truthy_def)
  have t: "clientThrown ?badurl = Some TypeError"
    by (simp add: clientThrown_def configured_def truthy_def exampleEnv_def clientFor_def
        envValue_def)
  from response_shape [of ?env codeCompare] h
  have a: "responseStatus (POST codeCompare ?env) = Some 200
      \<and> responseKeys (POST codeCompare ?env) = summaryKeys"
    by simp
  from response_shape [of ?nokey codeCompare] f
  have b: "responseStatus (POST codeCompare ?nokey) = Some 500
      \<and> responseKeys (POST codeCompare ?nokey) = [''error'']"
    by blast
  from response_shape [of ?badurl codeCompare] t
  have c: "response (POST codeCompare ?badurl) = Inl TypeError
      \<and> submit_calls (POST codeCompare ?badurl) = []"
    by blast
  from a b c show ?thesis by blast
qed

text \<open>
  The claim as stated fails with one person in the store: the invocation is not fatal
  and the body has the key \<^verbatim>\<open>message\<close> alone.
\<close>

theorem early_exit_has_message_only:
  "\<not> fatal (exampleEnv [alice] [] submitsOk examplePolls insertAccepted)
   \<and> responseStatus (POST codeCompare (exampleEnv [alice] [] submitsOk examplePolls insertAccepted)) = Some 200
   \<and> responseKeys (POST codeCompare (exampleEnv [alice] [] submitsOk examplePolls insertAccepted)) = [''message'']
   \<and> ''total'' \<notin> set (responseKeys (POST codeCompare (exampleEnv [alice] [] submitsOk examplePolls insertAccepted)))"
proof -
  let ?env = "exampleEnv [alice] [] submitsOk examplePolls insertAccepted"
  have "configured ?env" "clientThrown ?env = None" "people_error ?env = None"
    using not_fatal_configured [OF exampleEnv_not_fatal, of "[alice]" "[]" submitsOk examplePolls
        insertAccepted]
    by blast+
  moreover have "\<not> enoughPeople ?env"
    by (simp add: exampleEnv_enoughPeople)
  ultimately have "POST codeCompare ?env
      = jsonResponse [(''message'', JString ''Not enough people yet'')] 200"
    by (rule POST_not_enough)
  then show ?thesis
    by (simp add: exampleEnv_not_fatal)
qed

lemma settleJob_truthy:
  "truthy (fst (pollResult fetches 30)) \<Longrightarrow>
   settleJob canonName fetches insertErr =
     (case insertErr of
        None \<Rightarrow> Fulfilled canonName
      | Some e \<Rightarrow> if pg_code e = ''23505'' then Fulfilled canonName else Rejected (pg_message e))"
  by (simp add: settleJob_def Let_def split: option.splits)

lemma jobResults_nth:
  "j < length submitted \<Longrightarrow>
   jobResults env submitted ! j =
     settleJob (snd (snd (snd (submitted ! j)))) (poll_fetch env (fst (submitted ! j)))
       (insert_error env (fst (submitted ! j)))"
  by (simp add: jobResults_def case_prod_beta)

lemma settleJob_falsy:
  "\<not> truthy (fst (pollResult fetches 30)) \<Longrightarrow>
   settleJob canonName fetches insertErr = Rejected (''No output for '' @ canonName)"
  by (simp add: settleJob_def Let_def)

lemma submittedOf_label:
  assumes "j < length (submittedOf lc env missing)"
  shows "fst (submittedOf lc env missing ! j) < length missing
     \<and> fst (snd (submittedOf lc env missing ! j)) = missing ! fst (submittedOf lc env missing ! j)
     \<and> snd (snd (snd (submittedOf lc env missing ! j)))
         = labelOf lc (missing ! fst (submittedOf lc env missing ! j))"
proof -
  let ?ids = "map (\<lambda>k. if submitFailure (submit_fetch env k) then None
                         else jobIdOf (submit_fetch env k)) [0..<length missing]"
  let ?g = "\<lambda>(k, pair, predictionId).
        (case predictionId of
           None \<Rightarrow> []
         | Some pid \<Rightarrow>
             if pid = [] then []
             else [(k, pair, pid, canonicalName lc (person_name (fst pair)) (person_name (snd pair)))])"
  have jobs: "submittedOf lc env missing = concat (map ?g (zip [0..<length missing] (zip missing ?ids)))"
    by (simp add: submittedOf_def submitAll_eq submittedJobs_def)
  have "submittedOf lc env missing ! j \<in> set (submittedOf lc env missing)"
    using assms by simp
  then obtain k pair i where z: "(k, pair, i) \<in> set (zip [0..<length missing] (zip missing ?ids))"
    and mem: "submittedOf lc env missing ! j \<in> set (?g (k, pair, i))"
    unfolding jobs by auto
  from z have "k < length missing" "pair = missing ! k"
    by (auto simp: set_zip)
  moreover from mem obtain pid where
    "submittedOf lc env missing ! j
       = (k, pair, pid, canonicalName lc (person_name (fst pair)) (person_name (snd pair)))"
    by (auto split: option.splits if_splits)
  ultimately show ?thesis
    by (simp add: labelOf_def)
qed

text \<open>
  Claim C3: for a job whose polling gave an output URL, an insert that fails with the code
  23505 settles the job as fulfilled with its label, and an insert that fails with any
  other code settles it as rejected with the message of the error; an insert without
  error settles it as fulfilled, and a job without output is rejected. In the handler the
  outcome of each submitted job is that of its own label, status requests and insert:
  a job of the missing pair \<open>k\<close> with an output URL is fulfilled when the insert of \<open>k\<close>
  conflicts and rejected when it fails otherwise. Another answer to the insert of one
  pair leaves the outcome of the job of every other pair as it was; the invocation
  answers with the status 200 whatever the inserts give, and its counts of succeeded and
  failed are the numbers of fulfilled and of rejected jobs.
\<close>

theorem conflict_is_success:
  "(truthy (fst (pollResult fetches 30)) \<longrightarrow>
      (\<forall>e. insertErr = Some e \<and> pg_code e = ''23505'' \<longrightarrow>
         settleJob canonName fetches insertErr = Fulfilled canonName)
      \<and> (\<forall>e. insertErr = Some e \<and> pg_code e \<noteq> ''23505'' \<longrightarrow>
         settleJob canonName fetches insertErr = Rejected (pg_message e))
      \<and> (insertErr = None \<longrightarrow> settleJob canonName fetches insertErr = Fulfilled canonName))
   \<and> (\<not> truthy (fst (pollResult fetches 30)) \<longrightarrow>
         settleJob canonName fetches insertErr = Rejected (''No output for '' @ canonName))
   \<and> length (jobResults env submitted) = length submitted
   \<and> (\<forall>j<length submitted.
         jobResults env submitted ! j =
           settleJob (snd (snd (snd (submitted ! j)))) (poll_fetch env (fst (submitted ! j)))
             (insert_error env (fst (submitted ! j))))
   \<and> (\<forall>j<length (submittedOf lc env missing). \<forall>k e.
         fst (submittedOf lc env missing ! j) = k
         \<and> truthy (fst (pollResult (poll_fetch env k) 30))
         \<and> insert_error env k = Some e \<longrightarrow>
         k < length missing
         \<and> jobResults env (submittedOf lc env missing) ! j =
             (if pg_code e = ''23505'' then Fulfilled (labelOf lc (missing ! k))
              else Rejected (pg_message e)))
   \<and> (\<forall>j<length submitted. fst (submitted ! j) \<noteq> k \<longrightarrow>
         jobResults (env\<lparr>insert_error := (insert_error env)(k := x)\<rparr>) submitted ! j
           = jobResults env submitted ! j)
   \<and> responseStatus (generate lc env missing) = Some 200
   \<and> numberField ''succeeded'' (generate lc env missing)
       = Some (length (filter isFulfilled (jobResults env (submittedOf lc env missing))))
   \<and> numberField ''failed'' (generate lc env missing)
       = Some (length (filter isRejected (jobResults env (submittedOf lc env missing))))"
proof (intro conjI impI allI)
  fix j assume "j < length submitted" "fst (submitted ! j) \<noteq> k"
  then show "jobResults (env\<lparr>insert_error := (insert_error env)(k := x)\<rparr>) submitted ! j
           = jobResults env submitted ! j"
    by (simp add: jobResults_nth)
next
  fix j k e
  assume j: "j < length (submittedOf lc env missing)"
    and h: "fst (submittedOf lc env missing ! j) = k
         \<and> truthy (fst (pollResult (poll_fetch env k) 30))
         \<and> insert_error env k = Some e"
  from submittedOf_label [OF j] h show "k < length missing"
    by simp
  from submittedOf_label [OF j] h
  show "jobResults env (submittedOf lc env missing) ! j =
             (if pg_code e = ''23505'' then Fulfilled (labelOf lc (missing ! k))
              else Rejected (pg_message e))"
    by (simp add: jobResults_nth [OF j] settleJob_truthy)
qed (simp_all add: settleJob_truthy settleJob_falsy length_jobResults numberField_generate
    jobResults_nth)

theorem conflict_is_success_witness:
  "settleJob ''Alice x Bob'' examplePolls (insertConflict 0) = Fulfilled ''Alice x Bob''
   \<and> settleJob ''Alice x Bob'' examplePolls (insertBroken 0) = Rejected ''connection failure''
   \<and> jobResults (exampleEnv [alice, bob] [] submitsOk examplePolls insertConflict)
        (submittedOf codeCompare (exampleEnv [alice, bob] [] submitsOk examplePolls insertConflict)
           [(alice, bob)]) = [Fulfilled ''Alice x Bob'']
   \<and> jobResults (exampleEnv [alice, bob] [] submitsOk examplePolls insertBroken)
        (submittedOf codeCompare (exampleEnv [alice, bob] [] submitsOk examplePolls insertBroken)
           [(alice, bob)]) = [Rejected ''connection failure'']
   \<and> responseStatus (generate codeCompare
        (exampleEnv [alice, bob] [] submitsOk examplePolls insertBroken) [(alice, bob)]) = Some 200
   \<and> numberField ''succeeded'' (generate codeCompare
        (exampleEnv [alice, bob] [] submitsOk examplePolls insertConflict) [(alice, bob)]) = Some 1
   \<and> numberField ''succeeded'' (generate codeCompare
        (exampleEnv [alice, bob] [] submitsOk examplePolls insertBroken) [(alice, bob)]) = Some 0
   \<and> numberField ''failed'' (generate codeCompare
        (exampleEnv [alice, bob] [] submitsOk examplePolls insertBroken) [(alice, bob)]) = Some 1"
proof -
  let ?env = "exampleEnv [alice, bob] [] submitsOk examplePolls insertConflict"
  let ?bad = "exampleEnv [alice, bob] [] submitsOk examplePolls insertBroken"
  let ?conflict = "\<lparr>pg_code = ''23505'', pg_message = ''duplicate key value''\<rparr>"
  let ?broken = "\<lparr>pg_code = ''08006'', pg_message = ''connection failure''\<rparr>"
  have t: "truthy (fst (pollResult examplePolls 30))"
    by (simp add: pollResult_examplePolls truthy_def)
  have a: "settleJob ''Alice x Bob'' examplePolls (insertConflict 0) = Fulfilled ''Alice x Bob''"
    using conflict_is_success [where fetches = examplePolls and insertErr = "insertConflict 0"
        and canonName = "''Alice x Bob''"] t
    by (simp add: insertConflict_def)
  have b: "settleJob ''Alice x Bob'' examplePolls (insertBroken 0) = Rejected ''connection failure''"
    using conflict_is_success [where fetches = examplePolls and insertErr = "insertBroken 0"
        and canonName = "''Alice x Bob''"] t
    by (simp add: insertBroken_def)
  have s: "submittedOf codeCompare (exampleEnv [alice, bob] [] submitsOk examplePolls ins) [(alice, bob)]
      = [(0, (alice, bob), ''job'', ''Alice x Bob'')]" for ins
    by (simp add: submittedOf_def submitAll_eq submittedJobs_def exampleEnv_def submitsOk_def
        submitJob_submitOk canonicalName_def alice_def bob_def)
  have e: "poll_fetch (exampleEnv [alice, bob] [] submitsOk examplePolls ins) 0 = examplePolls"
    "insert_error (exampleEnv [alice, bob] [] submitsOk examplePolls ins) 0 = ins 0" for ins
    by (simp_all add: exampleEnv_def)
  have l: "labelOf codeCompare (alice, bob) = ''Alice x Bob''"
    by (simp add: labelOf_def canonicalName_def alice_def bob_def)
  have pre: "0 < length (submittedOf codeCompare (exampleEnv [alice, bob] [] submitsOk examplePolls ins)
        [(alice, bob)])"
    "fst (submittedOf codeCompare (exampleEnv [alice, bob] [] submitsOk examplePolls ins)
        [(alice, bob)] ! 0) = 0
     \<and> truthy (fst (pollResult (poll_fetch (exampleEnv [alice, bob] [] submitsOk examplePolls ins) 0) 30))"
    for ins
    by (simp_all add: s e t)
  have "insert_error ?env 0 = Some ?conflict"
    by (simp add: e insertConflict_def)
  with conflict_is_success [where env = ?env and lc = codeCompare and missing = "[(alice, bob)]"]
    pre [of insertConflict]
  have "jobResults ?env (submittedOf codeCompare ?env [(alice, bob)]) ! 0 =
      (if pg_code ?conflict = ''23505'' then Fulfilled (labelOf codeCompare ([(alice, bob)] ! 0))
       else Rejected (pg_message ?conflict))"
    by blast
  then have c: "jobResults ?env (submittedOf codeCompare ?env [(alice, bob)]) ! 0
      = Fulfilled ''Alice x Bob''"
    by (simp add: l)
  have "insert_error ?bad 0 = Some ?broken"
    by (simp add: e insertBroken_def)
  with conflict_is_success [where env = ?bad and lc = codeCompare and missing = "[(alice, bob)]"]
    pre [of insertBroken]
  have "jobResults ?bad (submittedOf codeCompare ?bad [(alice, bob)]) ! 0 =
      (if pg_code ?broken = ''23505'' then Fulfilled (labelOf codeCompare ([(alice, bob)] ! 0))
       else Rejected (pg_message ?broken))"
    by blast
  then have d: "jobResults ?bad (submittedOf codeCompare ?bad [(alice, bob)]) ! 0
      = Rejected ''connection failure''"
    by simp
  have len: "length (jobResults env' (submittedOf codeCompare
      (exampleEnv [alice, bob] [] submitsOk examplePolls ins) [(alice, bob)])) = 1" for env' ins
    by (simp add: s jobResults_def)
  have c': "jobResults ?env (submittedOf codeCompare ?env [(alice, bob)]) = [Fulfilled ''Alice x Bob'']"
    using c len [of ?env insertConflict] by (cases "jobResults ?env (submittedOf codeCompare ?env [(alice, bob)])") simp_all
  have d': "jobResults ?bad (submittedOf codeCompare ?bad [(alice, bob)]) = [Rejected ''connection failure'']"
    using d len [of ?bad insertBroken] by (cases "jobResults ?bad (submittedOf codeCompare ?bad [(alice, bob)])") simp_all
  from conflict_is_success [where env = ?env and lc = codeCompare and missing = "[(alice, bob)]"]
  have f1: "numberField ''succeeded'' (generate codeCompare ?env [(alice, bob)])
       = Some (length (filter isFulfilled (jobResults ?env (submittedOf codeCompare ?env [(alice, bob)]))))"
    by blast
  from conflict_is_success [where env = ?bad and lc = codeCompare and missing = "[(alice, bob)]"]
  have f2: "responseStatus (generate codeCompare ?bad [(alice, bob)]) = Some 200"
    "numberField ''succeeded'' (generate codeCompare ?bad [(alice, bob)])
       = Some (length (filter isFulfilled (jobResults ?bad (submittedOf codeCompare ?bad [(alice, bob)]))))"
    "numberField ''failed'' (generate codeCompare ?bad [(alice, bob)])
       = Some (length (filter isRejected (jobResults ?bad (submittedOf codeCompare ?bad [(alice, bob)]))))"
    by blast+
  from a b c' d' f1 f2 show ?thesis
    by (simp add: isFulfilled_def isRejected_def)
qed

lemma canonicalName_same: "canonicalName lc n n = n @ '' x '' @ n"
  by (simp add: canonicalName_def)

lemma missingPairs_member:
  assumes "i < j" "j < length people" "labelAt lc people (i, j) \<notin> existingNames"
  shows "(people ! i, people ! j) \<in> set (missingPairs lc people existingNames)"
proof -
  have "(i, j) \<in> set (indexPairs (length people))"
    using assms(1,2) by (simp add: set_indexPairs)
  then have "(i, j) \<in> set (filter (\<lambda>ij. \<not> labelDone lc people existingNames ij)
      (indexPairs (length people)))"
    using assms(3) by (simp add: labelDone_def)
  then have "pairAt people (i, j) \<in> set (missingPairs lc people existingNames)"
    unfolding missingPairs_eq set_map by (rule imageI)
  then show ?thesis by (simp add: pairAt_def)
qed

lemma missing_duplicates:
  "missingPairs codeCompare [alice, alice2, bob] {} = [(alice, alice2), (alice, bob), (alice2, bob)]"
  by (simp add: missingPairs_eq indexPairs_def labelDone_def pairAt_def)

lemma generate_duplicates:
  "generate codeCompare (exampleEnv people generated submitsOk examplePolls insertAccepted)
      [(alice, alice2), (alice, bob), (alice2, bob)] =
     \<lparr>response = Inr (summary 3 3
        [Fulfilled ''Alice x Alice'', Fulfilled ''Alice x Bob'', Fulfilled ''Alice x Bob'']),
      submit_calls = [(''https://img/alice'', ''https://img/alice2''),
        (''https://img/alice'', ''https://img/bob''), (''https://img/alice2'', ''https://img/bob'')],
      insert_calls = [\<lparr>comb_name = ''Alice x Alice'', comb_image = ''https://out''\<rparr>,
        \<lparr>comb_name = ''Alice x Bob'', comb_image = ''https://out''\<rparr>,
        \<lparr>comb_name = ''Alice x Bob'', comb_image = ''https://out''\<rparr>]\<rparr>"
proof -
  have up: "[0..<length [(alice, alice2), (alice, bob), (alice2, bob)]] = [0, 1, 2]"
    by (simp add: upt_rec)
  show ?thesis
    unfolding generate_eq up
    by (simp add: Let_def submitsOk_def submitJob_submitOk submittedJobs_def
      jobResults_def jobInserts_def exampleEnv_def canonicalName_def alice_def alice2_def bob_def
      settleJob_def insertOf_def pollResult_examplePolls truthy_def insertAccepted_def
      numeral_3_eq_3)
qed

text \<open>
  Claim C9: \<^verbatim>\<open>canonicalName(n, n)\<close> is \<^verbatim>\<open>n x n\<close>, and the enumeration pairs any two people at
  different positions whose label is not done, whether or not their names are equal. With
  two people named Alice and one named Bob, the missing pairs carry the label
  \<^verbatim>\<open>Alice x Bob\<close> twice, and one invocation submits a job and issues an insert for each.
\<close>

theorem same_name_duplicate_labels:
  "canonicalName lc n n = n @ '' x '' @ n
   \<and> (i < j \<and> j < length people \<and> labelAt lc people (i, j) \<notin> existingNames \<longrightarrow>
        (people ! i, people ! j) \<in> set (missingPairs lc people existingNames))
   \<and> map (\<lambda>pair. canonicalName codeCompare (person_name (fst pair)) (person_name (snd pair)))
        (missingPairs codeCompare [alice, alice2, bob] {})
       = [''Alice x Alice'', ''Alice x Bob'', ''Alice x Bob'']
   \<and> submit_calls (POST codeCompare (exampleEnv [alice, alice2, bob] [] submitsOk examplePolls insertAccepted))
       = [(''https://img/alice'', ''https://img/alice2''),
          (''https://img/alice'', ''https://img/bob''), (''https://img/alice2'', ''https://img/bob'')]
   \<and> map comb_name (insert_calls
        (POST codeCompare (exampleEnv [alice, alice2, bob] [] submitsOk examplePolls insertAccepted)))
       = [''Alice x Alice'', ''Alice x Bob'', ''Alice x Bob'']"
proof -
  let ?env = "exampleEnv [alice, alice2, bob] [] submitsOk examplePolls insertAccepted"
  have m: "missingOf codeCompare ?env = [(alice, alice2), (alice, bob), (alice2, bob)]"
    by (simp add: exampleEnv_missingOf missing_duplicates)
  have "POST codeCompare ?env = generate codeCompare ?env [(alice, alice2), (alice, bob), (alice2, bob)]"
    using m by (simp add: POST_enough exampleEnv_not_fatal exampleEnv_enoughPeople)
  then have run: "submit_calls (POST codeCompare ?env)
       = [(''https://img/alice'', ''https://img/alice2''),
          (''https://img/alice'', ''https://img/bob''), (''https://img/alice2'', ''https://img/bob'')]"
    "map comb_name (insert_calls (POST codeCompare ?env))
       = [''Alice x Alice'', ''Alice x Bob'', ''Alice x Bob'']"
    by (simp_all add: generate_duplicates)
  have labels: "map (\<lambda>pair. canonicalName codeCompare (person_name (fst pair)) (person_name (snd pair)))
        (missingPairs codeCompare [alice, alice2, bob] {})
       = [''Alice x Alice'', ''Alice x Bob'', ''Alice x Bob'']"
    unfolding missing_duplicates
    by (simp add: canonicalName_def alice_def alice2_def bob_def)
  from canonicalName_same [of lc n] missingPairs_member [of i j people lc existingNames] run labels
  show ?thesis by blast
qed

theorem same_name_duplicate_labels_witness:
  "alice \<noteq> alice2 \<and> person_name alice = person_name alice2
   \<and> (alice, alice2) \<in> set (missingPairs codeCompare [alice, alice2, bob] {})
   \<and> canonicalName codeCompare (person_name alice) (person_name alice2) = ''Alice x Alice''"
proof -
  have h: "(0::nat) < 1 \<and> 1 < length [alice, alice2, bob]
      \<and> labelAt codeCompare [alice, alice2, bob] (0, 1) \<notin> {}"
    by simp
  from same_name_duplicate_labels [of codeCompare "''Alice''" 0 1 "[alice, alice2, bob]" "{}"] h
  have "([alice, alice2, bob] ! 0, [alice, alice2, bob] ! 1)
      \<in> set (missingPairs codeCompare [alice, alice2, bob] {})"
    and "canonicalName codeCompare ''Alice'' ''Alice'' = ''Alice'' @ '' x '' @ ''Alice''"
    by blast+
  then show ?thesis
    by (simp add: alice_def alice2_def)
qed


end
